theory Spec2Isabelle
  imports Complex_Main "HOL-Library.Multiset" "HOL-Library.Product_Lexorder"
begin

section \<open>Data model of \<open>smac/smbo/smbo.py\<close>\<close>

text \<open>
  Python exceptions and the process exit of \<open>sys.exit\<close> are values: every function of the
  model that can raise returns \<open>error + result\<close>, with \<open>Inl\<close> the exception.
\<close>

datatype error =
    TypeError
  | ValueError
  | KeyError
  | IndexError
  | AttributeError
  | DuplicateRunError
  | SystemExit int

text \<open>
  Modelled from the spec: the status enumeration of \<open>smac.tae.execute_ta_run\<close>
  (SUCCESS, TIMEOUT, CRASHED, ABORT, MEMOUT); the module is not part of the sources.
\<close>

datatype StatusType = SUCCESS | TIMEOUT | CRASHED | ABORT | MEMOUT

text \<open>
  The hyperparameter classes that \<open>SMBO.__init__\<close> tells apart with \<open>isinstance\<close>;
  \<open>OtherHyperparameter\<close> stands for every class that none of the tests accepts.
\<close>

datatype hyperparameter =
    CategoricalHyperparameter "string list"
  | UniformFloatHyperparameter
  | UniformIntegerHyperparameter
  | Constant
  | OtherHyperparameter

text \<open>
  A configuration carries its values and the mutable provenance tag \<open>origin\<close>.
  Configurations compare by their values only, so the run history is keyed by \<open>cvalues\<close>.
\<close>

record 'v Configuration =
  cvalues :: 'v
  origin :: "string option"

text \<open>A two-dimensional numpy array: its shape and its rows.\<close>

record ndarray =
  shape :: "nat \<times> nat"
  cells :: "real list list"

text \<open>
  The scenario object, with the attributes that \<open>smbo.py\<close> reads. The executor
  (\<open>tae_runner\<close>) acts on the outside world and is a collaborator below.
\<close>

record 'cs Scenario =
  cs :: 'cs
  feature_array :: "ndarray option"
  train_insts :: "string list"
  cutoff :: real
  par_factor :: real
  deterministic :: bool
  run_obj :: string
  instance_specific :: "(string \<times> string) list"

record Intensifier =
  inten_instances :: "string list"
  inten_cutoff :: real
  inten_deterministic :: bool
  run_obj_time :: bool
  instance_specifics :: "(string \<times> string) list"

record RFRImputator =
  imp_cutoff :: real
  imp_threshold :: real
  change_threshold :: real
  max_iter :: nat

record RunHistory2EPM =
  num_params :: nat
  success_states :: "StatusType list"
  impute_censored_data :: bool
  impute_state :: "StatusType list option"
  imputor :: "RFRImputator option"
  log_y :: bool

datatype objective = total_cost | average_cost

text \<open>
  The acquisition function object. It always refers to the very model object that the
  optimizer holds (\<open>EI(self.model)\<close>, \<open>update(model=self.model, ...)\<close>), so the model is
  read from the optimizer state and only the threshold \<open>eta\<close> is stored here.
\<close>

record EI =
  eta :: "real option"

subsection \<open>The run history\<close>

text \<open>
  Modelled from the spec: the class \<open>RunHistory\<close> of \<open>smac.runhistory.runhistory\<close>, which
  is not part of the sources. It is a ledger from run keys (configuration, instance, seed)
  to run values, with a memoized aggregate cost per configuration. \<open>add\<close> fails on a key
  that is already there, \<open>get_cost\<close> fails on a configuration never given a cost.
\<close>

record RunValue =
  rv_cost :: real
  rv_time :: real
  rv_status :: StatusType
  rv_additional_info :: "(string \<times> string) list"

record 'v RunHistory =
  rh_data :: "(('v \<times> string \<times> int) \<times> RunValue) list"
  cost_per_config :: "('v \<times> real) list"

definition RunHistory_new :: "'v RunHistory" where
  "RunHistory_new = \<lparr>rh_data = [], cost_per_config = []\<rparr>"

definition rh_empty :: "'v RunHistory \<Rightarrow> bool" where
  "rh_empty rh = (rh_data rh = [])"

definition rh_add ::
  "'v RunHistory \<Rightarrow> 'v Configuration \<Rightarrow> real \<Rightarrow> real \<Rightarrow> StatusType \<Rightarrow> string \<Rightarrow> int \<Rightarrow>
   (string \<times> string) list \<Rightarrow> error + 'v RunHistory" where
  "rh_add rh config cost time status instance_id seed additional_info =
     (let k = (cvalues config, instance_id, seed) in
      if map_of (rh_data rh) k \<noteq> None then Inl DuplicateRunError
      else Inr (rh\<lparr>rh_data := rh_data rh @
                  [(k, \<lparr>rv_cost = cost, rv_time = time, rv_status = status,
                        rv_additional_info = additional_info\<rparr>)]\<rparr>))"

definition rh_get_runs_for_config ::
  "'v RunHistory \<Rightarrow> 'v Configuration \<Rightarrow> (string \<times> int) list" where
  "rh_get_runs_for_config rh config =
     map (\<lambda>((c, i, s), v). (i, s)) (filter (\<lambda>((c, i, s), v). c = cvalues config) (rh_data rh))"

definition rh_update_cost :: "'v RunHistory \<Rightarrow> 'v Configuration \<Rightarrow> real \<Rightarrow> 'v RunHistory" where
  "rh_update_cost rh config cost =
     rh\<lparr>cost_per_config := (cvalues config, cost) # cost_per_config rh\<rparr>"

definition rh_get_cost :: "'v RunHistory \<Rightarrow> 'v Configuration option \<Rightarrow> error + real" where
  "rh_get_cost rh config =
     (case config of
        None \<Rightarrow> Inl KeyError
      | Some c \<Rightarrow> (case map_of (cost_per_config rh) (cvalues c) of
                     None \<Rightarrow> Inl KeyError
                   | Some v \<Rightarrow> Inr v))"

subsection \<open>The optimizer object\<close>

record ('v, 'g, 'cs, 'm, 'ls) SMBO =
  rng :: 'g
  scenario :: "'cs Scenario"
  config_space :: 'cs
  types :: "nat list"
  model :: 'm
  acquisition_func :: EI
  local_search :: 'ls
  incumbent :: "'v Configuration option"
  inten :: Intensifier
  rh2EPM :: RunHistory2EPM
  objective :: objective
  runhistory :: "'v RunHistory option"

text \<open>The argument \<open>rng\<close> of the constructor: \<open>None\<close>, an \<open>int\<close>, a \<open>RandomState\<close>, or else.\<close>

datatype 'g rng_arg = RngNone | RngInt int | RngState 'g | RngOther

subsection \<open>Collaborators\<close>

text \<open>
  Everything \<open>smbo.py\<close> calls but does not define is a parameter of the model: the numpy
  generator (type \<open>'g\<close>), the configuration space with its own sampler state (\<open>'cs\<close>), the
  random forest (\<open>'m\<close>), the local search (\<open>'ls\<close>), and the outside world \<open>'w\<close> (the clock,
  the global budget counters of \<open>Stats\<close>, the global generators of \<open>random\<close> and
  \<open>numpy.random\<close>, the target algorithm). A collaborator that has state takes the
  state and returns the new one.
\<close>

record ('v, 'g, 'cs, 'm, 'ls, 'w) collaborators =
  np_random_randint :: "int \<Rightarrow> 'w \<Rightarrow> int \<times> 'w"
  RandomState :: "int \<Rightarrow> error + 'g"
  rng_randint :: "int \<Rightarrow> int \<Rightarrow> 'g \<Rightarrow> int \<times> 'g"
  rng_rand :: "'g \<Rightarrow> real \<times> 'g"
  get_hyperparameters :: "'cs \<Rightarrow> hyperparameter list"
  get_default_configuration :: "'cs \<Rightarrow> 'v Configuration"
  sample_configuration :: "'cs \<Rightarrow> 'v Configuration \<times> 'cs"
  impute_inactive_values :: "'v Configuration \<Rightarrow> 'v Configuration"
  get_array :: "'v Configuration \<Rightarrow> real list"
  RandomForestWithInstances :: "nat list \<Rightarrow> ndarray option \<Rightarrow> int \<Rightarrow> 'm"
  model_train :: "'m \<Rightarrow> real list list \<Rightarrow> real list \<Rightarrow> 'm"
  acquisition_value :: "'m \<Rightarrow> real option \<Rightarrow> real list \<Rightarrow> real"
  LocalSearch :: "'cs \<Rightarrow> 'ls"
  local_search_maximize ::
    "'ls \<Rightarrow> 'm \<Rightarrow> real option \<Rightarrow> 'v Configuration \<Rightarrow> ('v Configuration \<times> real) \<times> 'ls"
  rh2EPM_transform ::
    "'cs Scenario \<Rightarrow> RunHistory2EPM \<Rightarrow> 'v RunHistory \<Rightarrow> 'm \<Rightarrow> 'g \<Rightarrow>
     (real list list \<times> real list) \<times> 'm \<times> 'g"
  objective_cost ::
    "objective \<Rightarrow> 'v Configuration \<Rightarrow> 'v RunHistory \<Rightarrow> (string \<times> int) set \<Rightarrow> real"
  status_truthy :: "StatusType \<Rightarrow> bool"
  executor_run ::
    "'v Configuration \<Rightarrow> string \<Rightarrow> real \<Rightarrow> int \<Rightarrow> string \<Rightarrow> 'w \<Rightarrow>
     (StatusType \<times> real \<times> real \<times> (string \<times> string) list) \<times> 'w"
  py_random_randint :: "int \<Rightarrow> int \<Rightarrow> 'w \<Rightarrow> int \<times> 'w"
  intensify ::
    "Intensifier \<Rightarrow> 'v Configuration list \<Rightarrow> 'v Configuration option \<Rightarrow> 'v RunHistory \<Rightarrow>
     objective \<Rightarrow> real \<Rightarrow> 'w \<Rightarrow> ('v Configuration \<times> 'v RunHistory) \<times> 'w"
  time_time :: "'w \<Rightarrow> real \<times> 'w"
  Stats_start_timing :: "'w \<Rightarrow> 'w"
  Stats_get_remaing_time_budget :: "'w \<Rightarrow> real \<times> 'w"
  Stats_get_remaining_ta_budget :: "'w \<Rightarrow> real \<times> 'w"
  Stats_get_remaining_ta_runs :: "'w \<Rightarrow> real \<times> 'w"

section \<open>Construction: \<open>SMBO.__init__\<close>\<close>

text \<open>Lines 50-58: the generator is made from the argument \<open>rng\<close>.\<close>

definition init_rng ::
  "('v, 'g, 'cs, 'm, 'ls, 'w) collaborators \<Rightarrow> 'g rng_arg \<Rightarrow> 'w \<Rightarrow> error + ('g \<times> 'w)" where
  "init_rng P a w =
     (case a of
        RngNone \<Rightarrow>
          (let (seed, w') = np_random_randint P 10000 w in
           case RandomState P seed of Inl e \<Rightarrow> Inl e | Inr g \<Rightarrow> Inr (g, w'))
      | RngInt n \<Rightarrow> (case RandomState P n of Inl e \<Rightarrow> Inl e | Inr g \<Rightarrow> Inr (g, w))
      | RngState g \<Rightarrow> Inr (g, w)
      | RngOther \<Rightarrow> Inl TypeError)"

text \<open>
  Lines 64-79: one entry per hyperparameter, in the order of \<open>get_hyperparameters\<close>. The
  array starts as zeros; a categorical writes its number of choices, a constant writes 0,
  a float or integer leaves the zero, and any other class raises \<open>TypeError\<close>.
\<close>

fun param_type :: "hyperparameter \<Rightarrow> error + nat" where
  "param_type (CategoricalHyperparameter choices) = Inr (length choices)"
| "param_type Constant = Inr 0"
| "param_type UniformFloatHyperparameter = Inr 0"
| "param_type UniformIntegerHyperparameter = Inr 0"
| "param_type OtherHyperparameter = Inl TypeError"

fun param_types :: "hyperparameter list \<Rightarrow> error + nat list" where
  "param_types [] = Inr []"
| "param_types (param # ps) =
     (case param_type param of
        Inl e \<Rightarrow> Inl e
      | Inr t \<Rightarrow> (case param_types ps of Inl e \<Rightarrow> Inl e | Inr ts \<Rightarrow> Inr (t # ts)))"

text \<open>Lines 81-85: zeros are appended for the columns of the instance features.\<close>

definition extend_types :: "nat list \<Rightarrow> ndarray option \<Rightarrow> nat list" where
  "extend_types ts fa =
     (case fa of None \<Rightarrow> ts | Some a \<Rightarrow> ts @ replicate (snd (shape a)) 0)"

text \<open>
  Lines 108-142: the transformation from run history to training data. The inner test of
  the objective repeats the outer one, so its \<open>else\<close> branch is never taken.
\<close>

definition init_rh2EPM :: "'cs Scenario \<Rightarrow> nat \<Rightarrow> RunHistory2EPM \<times> objective" where
  "init_rh2EPM sc n_params =
     (if run_obj sc = ''runtime'' then
        (let (cutoff', threshold) =
               (if run_obj sc = ''runtime''
                then (log 10 (cutoff sc), log 10 (cutoff sc * par_factor sc))
                else (cutoff sc, cutoff sc * par_factor sc));
             imp = \<lparr>imp_cutoff = cutoff', imp_threshold = threshold,
                    change_threshold = 0.01, max_iter = 10\<rparr>
         in (\<lparr>num_params = n_params, success_states = [SUCCESS],
              impute_censored_data = True, impute_state = Some [TIMEOUT],
              imputor = Some imp, log_y = (run_obj sc = ''runtime'')\<rparr>, total_cost))
      else
        (\<lparr>num_params = n_params, success_states = [SUCCESS],
          impute_censored_data = False, impute_state = None,
          imputor = None, log_y = (run_obj sc = ''runtime'')\<rparr>, average_cost))"

definition SMBO_init ::
  "('v, 'g, 'cs, 'm, 'ls, 'w) collaborators \<Rightarrow> 'cs Scenario \<Rightarrow> 'g rng_arg \<Rightarrow> 'w \<Rightarrow>
   error + (('v, 'g, 'cs, 'm, 'ls) SMBO \<times> 'w)" where
  "SMBO_init P sc a w =
     (case init_rng P a w of
        Inl e \<Rightarrow> Inl e
      | Inr (g, w') \<Rightarrow>
          (case param_types (get_hyperparameters P (cs sc)) of
             Inl e \<Rightarrow> Inl e
           | Inr ts \<Rightarrow>
               (let tys = extend_types ts (feature_array sc);
                    (seed, g') = rng_randint P 0 1234567980 g;
                    m = RandomForestWithInstances P tys (feature_array sc) seed;
                    n_params = length (get_hyperparameters P (cs sc));
                    (r2e, obj) = init_rh2EPM sc n_params
                in Inr (\<lparr>rng = g', scenario = sc, config_space = cs sc, types = tys,
                         model = m, acquisition_func = \<lparr>eta = None\<rparr>,
                         local_search = LocalSearch P (cs sc), incumbent = None,
                         inten = \<lparr>inten_instances = train_insts sc,
                                  inten_cutoff = cutoff sc,
                                  inten_deterministic = deterministic sc,
                                  run_obj_time = (run_obj sc = ''runtime''),
                                  instance_specifics = instance_specific sc\<rparr>,
                         rh2EPM = r2e, objective = obj, runhistory = None\<rparr>, w'))))"

section \<open>Python and numpy primitives used by the optimizer\<close>

definition MAXINT :: int where
  "MAXINT = 2 ^ 31 - 1"

text \<open>\<open>a or b\<close> is \<open>a\<close> when \<open>a\<close> is truthy and \<open>b\<close> otherwise.\<close>

definition py_or ::
  "('v, 'g, 'cs, 'm, 'ls, 'w) collaborators \<Rightarrow> StatusType \<Rightarrow> StatusType \<Rightarrow> StatusType" where
  "py_or P a b = (if status_truthy P a then a else b)"

text \<open>The position that index \<open>i\<close> denotes in a list of \<open>n\<close> elements, if any.\<close>

definition py_index :: "nat \<Rightarrow> int \<Rightarrow> nat option" where
  "py_index n i =
     (if 0 \<le> i \<and> i < int n then Some (nat i)
      else if i < 0 \<and> - int n \<le> i then Some (nat (int n + i))
      else None)"

text \<open>\<open>d.get(k, default)\<close> on a dictionary kept as an association list.\<close>

definition dict_get :: "(string \<times> string) list \<Rightarrow> string \<Rightarrow> string \<Rightarrow> string" where
  "dict_get d k dflt = (case map_of d k of None \<Rightarrow> dflt | Some v \<Rightarrow> v)"

text \<open>\<open>int(x)\<close> on a float truncates towards zero.\<close>

definition py_int :: "real \<Rightarrow> int" where
  "py_int x = (if 0 \<le> x then \<lfloor>x\<rfloor> else \<lceil>x\<rceil>)"

text \<open>\<open>xs.sort(reverse=True, key=f)\<close>: descending and stable.\<close>

definition sort_reverse :: "('a \<Rightarrow> real) \<Rightarrow> 'a list \<Rightarrow> 'a list" where
  "sort_reverse f xs = sort_key (\<lambda>x. - f x) xs"

text \<open>
  \<open>np.lexsort((secondary, primary))\<close>: the indices that sort by the last key first,
  then by the one before it; ascending and stable.
\<close>

definition lexsort :: "real list \<Rightarrow> real list \<Rightarrow> nat list" where
  "lexsort secondary primary =
     sort_key (\<lambda>i. (primary ! i, secondary ! i)) [0..<length primary]"

text \<open>\<open>list(itertools.chain(*zip(xs, ys)))\<close>.\<close>

definition chain_zip :: "'a list \<Rightarrow> 'a list \<Rightarrow> 'a list" where
  "chain_zip xs ys = concat (map (\<lambda>(x, y). [x, y]) (zip xs ys))"

text \<open>\<open>rng.rand(n)\<close>: \<open>n\<close> successive draws of the generator.\<close>

fun rng_rand_n ::
  "('v, 'g, 'cs, 'm, 'ls, 'w) collaborators \<Rightarrow> nat \<Rightarrow> 'g \<Rightarrow> real list \<times> 'g" where
  "rng_rand_n P 0 g = ([], g)"
| "rng_rand_n P (Suc n) g =
     (let (r, g') = rng_rand P g; (rs, g'') = rng_rand_n P n g' in (r # rs, g''))"

text \<open>
  \<open>random.shuffle(x, random)\<close> of the standard library with an explicit source:
  for \<open>i\<close> from \<open>len(x) - 1\<close> down to 1, \<open>j = int(random() * (i + 1))\<close> and
  \<open>x[i], x[j] = x[j], x[i]\<close>. The first argument below is \<open>i\<close>.
\<close>

fun shuffle_from ::
  "('v, 'g, 'cs, 'm, 'ls, 'w) collaborators \<Rightarrow> nat \<Rightarrow> 'a list \<Rightarrow> 'g \<Rightarrow> error + ('a list \<times> 'g)" where
  "shuffle_from P 0 x g = Inr (x, g)"
| "shuffle_from P (Suc k) x g =
     (let (r, g') = rng_rand P g;
          j = py_int (r * (real (Suc k) + 1))
      in case py_index (length x) j of
           None \<Rightarrow> Inl IndexError
         | Some j' \<Rightarrow> shuffle_from P k (x[Suc k := x ! j', j' := x ! Suc k]) g')"

definition shuffle ::
  "('v, 'g, 'cs, 'm, 'ls, 'w) collaborators \<Rightarrow> 'a list \<Rightarrow> 'g \<Rightarrow> error + ('a list \<times> 'g)" where
  "shuffle P x g = shuffle_from P (length x - 1) x g"

text \<open>
  \<open>config_space.sample_configuration(size=n)\<close>: \<open>n\<close> successive draws of the sampler of
  the configuration space (the optimizer asks for 1010 and for 1000).
\<close>

fun sample_configurations ::
  "('v, 'g, 'cs, 'm, 'ls, 'w) collaborators \<Rightarrow> nat \<Rightarrow> 'cs \<Rightarrow> 'v Configuration list \<times> 'cs" where
  "sample_configurations P 0 c = ([], c)"
| "sample_configurations P (Suc n) c =
     (let (x, c') = sample_configuration P c;
          (xs, c'') = sample_configurations P n c'
      in (x # xs, c''))"

section \<open>The initial design: \<open>SMBO.run_initial_design\<close>\<close>

text \<open>
  \<open>rng.randint(0, n)\<close> raises \<open>ValueError\<close> on an empty range. The test of the status is
  \<open>status in [StatusType.CRASHED or StatusType.ABORT]\<close>, a list of one element.
\<close>

definition run_initial_design ::
  "('v, 'g, 'cs, 'm, 'ls, 'w) collaborators \<Rightarrow> ('v, 'g, 'cs, 'm, 'ls) SMBO \<Rightarrow> 'w \<Rightarrow>
   error + (('v, 'g, 'cs, 'm, 'ls) SMBO \<times> 'w)" where
  "run_initial_design P s w =
     (let default_conf = get_default_configuration P (config_space s);
          s1 = s\<lparr>incumbent := Some default_conf\<rparr>;
          insts = train_insts (scenario s1)
      in if length insts = 0 then Inl ValueError
         else
           (let (rand_inst_id, g') = rng_randint P 0 (int (length insts)) (rng s1)
            in case py_index (length insts) rand_inst_id of
                 None \<Rightarrow> Inl IndexError
               | Some k \<Rightarrow>
                   (let rand_inst = insts ! k;
                        (initial_seed, w1) =
                          (if deterministic (scenario s1) then (0, w)
                           else py_random_randint P 0 MAXINT w);
                        ((status, cost, runtime, additional_info), w2) =
                          executor_run P default_conf rand_inst (cutoff (scenario s1))
                            initial_seed
                            (dict_get (instance_specific (scenario s1)) rand_inst ''0'') w1
                    in if status \<in> set [py_or P CRASHED ABORT] then Inl (SystemExit 42)
                       else
                         (case runhistory s1 of
                            None \<Rightarrow> Inl AttributeError
                          | Some rh \<Rightarrow>
                              (case rh_add rh default_conf cost runtime status rand_inst
                                      initial_seed additional_info of
                                 Inl e \<Rightarrow> Inl e
                               | Inr rh1 \<Rightarrow>
                                   (let defaul_inst_seeds =
                                          set (rh_get_runs_for_config rh1 default_conf);
                                        default_perf =
                                          objective_cost P (objective s1) default_conf rh1
                                            defaul_inst_seeds;
                                        rh2 = rh_update_cost rh1 default_conf default_perf
                                    in Inr (s1\<lparr>rng := g', runhistory := Some rh2\<rparr>, w2)))))))"

section \<open>Proposing challengers\<close>

subsection \<open>\<open>SMBO._get_next_by_random_search\<close>\<close>

definition get_next_by_random_search ::
  "('v, 'g, 'cs, 'm, 'ls, 'w) collaborators \<Rightarrow> nat \<Rightarrow> bool \<Rightarrow> ('v, 'g, 'cs, 'm, 'ls) SMBO \<Rightarrow>
   (real \<times> 'v Configuration) list \<times> ('v, 'g, 'cs, 'm, 'ls) SMBO" where
  "get_next_by_random_search P num_points sorted' s =
     (let (rand_configs, c') = sample_configurations P num_points (config_space s);
          s1 = s\<lparr>config_space := c'\<rparr>
      in if sorted' then
           (let imputed_rand_configs =
                  map (\<lambda>x. get_array P (impute_inactive_values P x)) rand_configs;
                acq_values =
                  map (acquisition_value P (model s1) (eta (acquisition_func s1)))
                    imputed_rand_configs;
                (random, g') = rng_rand_n P (length acq_values) (rng s1);
                indices = lexsort random acq_values;
                tagged = map (\<lambda>c. c\<lparr>origin := Some ''Random Search (sorted)''\<rparr>) rand_configs
            in (map (\<lambda>ind. (acq_values ! ind, tagged ! ind)) (rev indices), s1\<lparr>rng := g'\<rparr>))
         else
           (map (\<lambda>c. (0, c\<lparr>origin := Some ''Random Search''\<rparr>)) rand_configs, s1))"

subsection \<open>\<open>SMBO._get_next_by_local_search\<close>\<close>

text \<open>
  The loop over \<open>range(num_points)\<close>: the second argument is \<open>i\<close>, the third the number
  of rounds still to run.
\<close>

fun local_search_loop ::
  "('v, 'g, 'cs, 'm, 'ls, 'w) collaborators \<Rightarrow> nat \<Rightarrow> nat \<Rightarrow> (real \<times> 'v Configuration) list \<Rightarrow>
   ('v, 'g, 'cs, 'm, 'ls) SMBO \<Rightarrow> (real \<times> 'v Configuration) list \<times> ('v, 'g, 'cs, 'm, 'ls) SMBO" where
  "local_search_loop P i 0 configs_acq s = (configs_acq, s)"
| "local_search_loop P i (Suc n) configs_acq s =
     (let (start_point, c') =
            (case incumbent s of
               Some inc \<Rightarrow>
                 (if i = 0 then (inc, config_space s)
                  else sample_configuration P (config_space s))
             | None \<Rightarrow> sample_configuration P (config_space s));
          ((configuration, acq_val), ls') =
            local_search_maximize P (local_search s) (model s) (eta (acquisition_func s))
              start_point;
          configuration' = configuration\<lparr>origin := Some ''Local Search''\<rparr>
      in local_search_loop P (Suc i) n (configs_acq @ [(acq_val, configuration')])
           (s\<lparr>config_space := c', local_search := ls'\<rparr>))"

definition get_next_by_local_search ::
  "('v, 'g, 'cs, 'm, 'ls, 'w) collaborators \<Rightarrow> nat \<Rightarrow> ('v, 'g, 'cs, 'm, 'ls) SMBO \<Rightarrow>
   error + ((real \<times> 'v Configuration) list \<times> ('v, 'g, 'cs, 'm, 'ls) SMBO)" where
  "get_next_by_local_search P num_points s =
     (let (configs_acq, s1) = local_search_loop P 0 num_points [] s
      in case shuffle P configs_acq (rng s1) of
           Inl e \<Rightarrow> Inl e
         | Inr (shuffled, g') \<Rightarrow> Inr (sort_reverse fst shuffled, s1\<lparr>rng := g'\<rparr>))"

subsection \<open>\<open>SMBO.choose_next\<close>\<close>

text \<open>Lines 263-266: the threshold handed to the acquisition function.\<close>

definition incumbent_value :: "('v, 'g, 'cs, 'm, 'ls) SMBO \<Rightarrow> error + real" where
  "incumbent_value s =
     (case runhistory s of
        None \<Rightarrow> Inl AttributeError
      | Some rh \<Rightarrow> if rh_empty rh then Inr 0 else rh_get_cost rh (incumbent s))"

text \<open>
  Lines 261-282: the model is retrained, the threshold is set, and the two pools are
  built: \<open>next_configs_by_acq_value\<close>, still with the acquisition values (first
  component), and \<open>next_configs_by_random_search\<close> (second component).
\<close>

definition choose_next_pools ::
  "('v, 'g, 'cs, 'm, 'ls, 'w) collaborators \<Rightarrow> ('v, 'g, 'cs, 'm, 'ls) SMBO \<Rightarrow>
   real list list \<Rightarrow> real list \<Rightarrow>
   error + ((real \<times> 'v Configuration) list \<times> 'v Configuration list \<times>
            ('v, 'g, 'cs, 'm, 'ls) SMBO)" where
  "choose_next_pools P s X Y =
     (let s0 = s\<lparr>model := model_train P (model s) X Y\<rparr>
      in case incumbent_value s0 of
           Inl e \<Rightarrow> Inl e
         | Inr v \<Rightarrow>
             (let s1 = s0\<lparr>acquisition_func := (acquisition_func s0)\<lparr>eta := Some v\<rparr>\<rparr>;
                  (unsorted, s2) = get_next_by_random_search P 1010 False s1;
                  next_configs_by_random_search = map snd unsorted;
                  (next_configs_by_random_search_sorted, s3) =
                    get_next_by_random_search P 1000 True s2
              in case get_next_by_local_search P 10 s3 of
                   Inl e \<Rightarrow> Inl e
                 | Inr (next_configs_by_local_search, s4) \<Rightarrow>
                     Inr (sort_reverse fst
                            (next_configs_by_random_search_sorted @
                             next_configs_by_local_search),
                          next_configs_by_random_search, s4)))"

text \<open>Lines 283-287: the values are dropped, the two pools are zipped and flattened.\<close>

definition choose_next ::
  "('v, 'g, 'cs, 'm, 'ls, 'w) collaborators \<Rightarrow> ('v, 'g, 'cs, 'm, 'ls) SMBO \<Rightarrow>
   real list list \<Rightarrow> real list \<Rightarrow>
   error + ('v Configuration list \<times> ('v, 'g, 'cs, 'm, 'ls) SMBO)" where
  "choose_next P s X Y =
     (case choose_next_pools P s X Y of
        Inl e \<Rightarrow> Inl e
      | Inr (next_configs_by_acq_value, next_configs_by_random_search, s') \<Rightarrow>
          Inr (chain_zip (map snd next_configs_by_acq_value) next_configs_by_random_search,
               s'))"

section \<open>The main loop: \<open>SMBO.run\<close>\<close>

text \<open>Lines 206-224: one pass of transform, \<open>choose_next\<close> and \<open>intensify\<close>.\<close>

definition smbo_iteration ::
  "('v, 'g, 'cs, 'm, 'ls, 'w) collaborators \<Rightarrow> ('v, 'g, 'cs, 'm, 'ls) SMBO \<Rightarrow> 'w \<Rightarrow>
   error + (('v, 'g, 'cs, 'm, 'ls) SMBO \<times> 'w)" where
  "smbo_iteration P s w =
     (let (start_time, w1) = time_time P w
      in case runhistory s of
           None \<Rightarrow> Inl AttributeError
         | Some rh \<Rightarrow>
             (let ((X, Y), m', g') =
                    rh2EPM_transform P (scenario s) (rh2EPM s) rh (model s) (rng s)
              in case choose_next P (s\<lparr>model := m', rng := g'\<rparr>) X Y of
                   Inl e \<Rightarrow> Inl e
                 | Inr (challengers, s2) \<Rightarrow>
                     (let (t, w2) = time_time P w1;
                          time_spend = t - start_time
                      in case runhistory s2 of
                           None \<Rightarrow> Inl AttributeError
                         | Some rh2 \<Rightarrow>
                             (let ((inc, rh3), w3) =
                                    intensify P (inten s2) challengers (incumbent s2) rh2
                                      (objective s2) (max 0.01 time_spend) w2
                              in Inr (s2\<lparr>incumbent := Some inc, runhistory := Some rh3\<rparr>,
                                      w3)))))"

text \<open>
  Lines 233-241: the three counters are read once for the log line, then once more, in
  order and with short-circuit, for the test.
\<close>

definition budget_exhausted ::
  "('v, 'g, 'cs, 'm, 'ls, 'w) collaborators \<Rightarrow> 'w \<Rightarrow> bool \<times> 'w" where
  "budget_exhausted P w =
     (let (l1, w1) = Stats_get_remaing_time_budget P w;
          (l2, w2) = Stats_get_remaining_ta_budget P w1;
          (l3, w3) = Stats_get_remaining_ta_runs P w2;
          (t, w4) = Stats_get_remaing_time_budget P w3
      in if t < 0 then (True, w4)
         else
           (let (a, w5) = Stats_get_remaining_ta_budget P w4
            in if a < 0 then (True, w5)
               else (let (r, w6) = Stats_get_remaining_ta_runs P w5 in (r < 0, w6))))"

text \<open>
  Lines 203-241: the \<open>while True\<close> loop. It has no bound of its own, so the model is a
  partial function: \<open>None\<close> is a loop that never ends.
\<close>

partial_function (option) run_loop ::
  "('v, 'g, 'cs, 'm, 'ls, 'w) collaborators \<Rightarrow> int \<Rightarrow> int \<Rightarrow> ('v, 'g, 'cs, 'm, 'ls) SMBO \<Rightarrow> 'w \<Rightarrow>
   (error + (('v, 'g, 'cs, 'm, 'ls) SMBO \<times> 'w)) option" where
  "run_loop P iteration max_iters s w =
     (case smbo_iteration P s w of
        Inl e \<Rightarrow> Some (Inl e)
      | Inr (s', w') \<Rightarrow>
          if iteration = max_iters then Some (Inr (s', w'))
          else
            (case budget_exhausted P w' of
               (stop, w'') \<Rightarrow>
                 if stop then Some (Inr (s', w''))
                 else run_loop P (iteration + 1) max_iters s' w''))"

text \<open>Lines 196-243: \<open>run\<close> returns the incumbent; the final state comes with it.\<close>

definition run ::
  "('v, 'g, 'cs, 'm, 'ls, 'w) collaborators \<Rightarrow> int \<Rightarrow> ('v, 'g, 'cs, 'm, 'ls) SMBO \<Rightarrow> 'w \<Rightarrow>
   (error + ('v Configuration option \<times> ('v, 'g, 'cs, 'm, 'ls) SMBO \<times> 'w)) option" where
  "run P max_iters s w =
     (let w0 = Stats_start_timing P w;
          s0 = s\<lparr>runhistory := Some RunHistory_new\<rparr>
      in case run_initial_design P s0 w0 of
           Inl e \<Rightarrow> Some (Inl e)
         | Inr (s1, w1) \<Rightarrow>
             (case run_loop P 1 max_iters s1 w1 of
                None \<Rightarrow> None
              | Some (Inl e) \<Rightarrow> Some (Inl e)
              | Some (Inr (s', w')) \<Rightarrow> Some (Inr (incumbent s', s', w'))))"

section \<open>Auxiliary definitions for the statements\<close>


text \<open>The optimizer after lines 261-268 of \<open>choose_next\<close>, for the threshold \<open>v\<close>.\<close>

definition after_update ::
  "('v, 'g, 'cs, 'm, 'ls, 'w) collaborators \<Rightarrow> ('v, 'g, 'cs, 'm, 'ls) SMBO \<Rightarrow>
   real list list \<Rightarrow> real list \<Rightarrow> real \<Rightarrow> ('v, 'g, 'cs, 'm, 'ls) SMBO" where
  "after_update P s X Y v =
     s\<lparr>model := model_train P (model s) X Y,
       acquisition_func := (acquisition_func s)\<lparr>eta := Some v\<rparr>\<rparr>"

text \<open>
  The two sort keys of the sorted random search of lines 306-317: the acquisition values of
  the sampled configurations and the tiebreakers drawn from the generator.
\<close>

definition random_search_acq_values ::
  "('v, 'g, 'cs, 'm, 'ls, 'w) collaborators \<Rightarrow> nat \<Rightarrow> ('v, 'g, 'cs, 'm, 'ls) SMBO \<Rightarrow> real list" where
  "random_search_acq_values P n s =
     map (\<lambda>x. acquisition_value P (model s) (eta (acquisition_func s))
                (get_array P (impute_inactive_values P x)))
       (fst (sample_configurations P n (config_space s)))"

definition random_search_tiebreak ::
  "('v, 'g, 'cs, 'm, 'ls, 'w) collaborators \<Rightarrow> nat \<Rightarrow> ('v, 'g, 'cs, 'm, 'ls) SMBO \<Rightarrow> real list" where
  "random_search_tiebreak P n s = fst (rng_rand_n P n (rng s))"

text \<open>
  The three counters as the test of lines 238-240 reads them: after the three reads for
  the log line, in the order of the test. A later counter is read only when the earlier
  ones are not negative.
\<close>

definition read_time_budget ::
  "('v, 'g, 'cs, 'm, 'ls, 'w) collaborators \<Rightarrow> 'w \<Rightarrow> real \<times> 'w" where
  "read_time_budget P w =
     Stats_get_remaing_time_budget P
       (snd (Stats_get_remaining_ta_runs P
          (snd (Stats_get_remaining_ta_budget P
             (snd (Stats_get_remaing_time_budget P w))))))"

definition read_ta_budget ::
  "('v, 'g, 'cs, 'm, 'ls, 'w) collaborators \<Rightarrow> 'w \<Rightarrow> real \<times> 'w" where
  "read_ta_budget P w = Stats_get_remaining_ta_budget P (snd (read_time_budget P w))"

definition read_ta_runs ::
  "('v, 'g, 'cs, 'm, 'ls, 'w) collaborators \<Rightarrow> 'w \<Rightarrow> real \<times> 'w" where
  "read_ta_runs P w = Stats_get_remaining_ta_runs P (snd (read_ta_budget P w))"

text \<open>The world after the test: the reads stop at the first negative counter.\<close>

definition world_after_poll ::
  "('v, 'g, 'cs, 'm, 'ls, 'w) collaborators \<Rightarrow> 'w \<Rightarrow> 'w" where
  "world_after_poll P w =
     (if fst (read_time_budget P w) < 0 then snd (read_time_budget P w)
      else if fst (read_ta_budget P w) < 0 then snd (read_ta_budget P w)
      else snd (read_ta_runs P w))"

text \<open>
  One full pass of the cycle, in the words of the specification: the run history is
  transformed into \<open>(X, Y)\<close>, \<open>choose_next\<close> proposes challengers from it, and \<open>intensify\<close>
  races them against the incumbent within the time that the proposal took (at least
  0.01); the optimizer then holds the incumbent and the run history that \<open>intensify\<close>
  returned. The clock is read before the transformation and after \<open>choose_next\<close>.
\<close>

inductive full_iteration ::
  "('v, 'g, 'cs, 'm, 'ls, 'w) collaborators \<Rightarrow> ('v, 'g, 'cs, 'm, 'ls) SMBO \<Rightarrow> 'w \<Rightarrow>
   ('v, 'g, 'cs, 'm, 'ls) SMBO \<Rightarrow> 'w \<Rightarrow> bool"
  for P :: "('v, 'g, 'cs, 'm, 'ls, 'w) collaborators" where
  pass:
    "\<lbrakk>time_time P w = (start_time, w1);
      runhistory s = Some rh;
      rh2EPM_transform P (scenario s) (rh2EPM s) rh (model s) (rng s) = ((X, Y), m, g);
      choose_next P (s\<lparr>model := m, rng := g\<rparr>) X Y = Inr (challengers, s2);
      time_time P w1 = (end_time, w2);
      runhistory s2 = Some rh2;
      intensify P (inten s2) challengers (incumbent s2) rh2 (objective s2)
        (max 0.01 (end_time - start_time)) w2 = ((inc, rh3), w3)\<rbrakk>
     \<Longrightarrow> full_iteration P s w (s2\<lparr>incumbent := Some inc, runhistory := Some rh3\<rparr>) w3"

code_pred full_iteration .

text \<open>
  \<open>completed P k s w s' w'\<close>: from \<open>(s, w)\<close>, exactly \<open>k\<close> full passes lead to \<open>(s', w')\<close>,
  the first of them starting in \<open>w\<close> itself, and after each pass but the last the three
  counters were read and none was negative.
\<close>

inductive completed ::
  "('v, 'g, 'cs, 'm, 'ls, 'w) collaborators \<Rightarrow> nat \<Rightarrow> ('v, 'g, 'cs, 'm, 'ls) SMBO \<Rightarrow> 'w \<Rightarrow>
   ('v, 'g, 'cs, 'm, 'ls) SMBO \<Rightarrow> 'w \<Rightarrow> bool"
  for P :: "('v, 'g, 'cs, 'm, 'ls, 'w) collaborators" where
  first: "full_iteration P s w s' w' \<Longrightarrow> completed P (Suc 0) s w s' w'"
| step:
    "\<lbrakk>full_iteration P s w s1 w1;
      0 \<le> fst (read_time_budget P w1);
      0 \<le> fst (read_ta_budget P w1);
      0 \<le> fst (read_ta_runs P w1);
      completed P k s1 (snd (read_ta_runs P w1)) s' w'\<rbrakk>
     \<Longrightarrow> completed P (Suc k) s w s' w'"

code_pred completed .

text \<open>
  What a result \<open>y\<close> of the loop, entered with the counter \<open>iteration\<close>, says about a
  normal return: the state returned is the one after exactly \<open>k\<close> full passes, none of the
  earlier passes was the one numbered \<open>max_iters\<close>, and the loop ended either because pass
  \<open>k\<close> was, or because a counter read after it was negative.
\<close>

definition loop_result ::
  "('v, 'g, 'cs, 'm, 'ls, 'w) collaborators \<Rightarrow> int \<Rightarrow> int \<Rightarrow> ('v, 'g, 'cs, 'm, 'ls) SMBO \<Rightarrow> 'w \<Rightarrow>
   (error + (('v, 'g, 'cs, 'm, 'ls) SMBO \<times> 'w)) \<Rightarrow> bool" where
  "loop_result P iteration max_iters s w y \<longleftrightarrow>
     (\<forall>s' w'. y = Inr (s', w') \<longrightarrow>
         (\<exists>k wk. 1 \<le> k \<and> completed P k s w s' wk \<and>
            (\<forall>j. 1 \<le> j \<and> j < k \<longrightarrow> iteration + int j - 1 \<noteq> max_iters) \<and>
            (iteration + int k - 1 = max_iters \<and> w' = wk \<or>
             iteration + int k - 1 \<noteq> max_iters \<and>
             (fst (read_time_budget P wk) < 0 \<or> fst (read_ta_budget P wk) < 0 \<or>
              fst (read_ta_runs P wk) < 0) \<and>
             w' = world_after_poll P wk)))"

section \<open>A small concrete instance\<close>

text \<open>
  One hyperparameter of each accepted class, two instance features, a sampler that counts,
  a generator that yields \<open>g / (g + 1)\<close>, an acquisition value that ties in pairs, a target
  algorithm that always succeeds, and budget counters that are negative from the start.
\<close>

definition toy_collaborators :: "(nat, nat, nat, unit, unit, nat) collaborators" where
  "toy_collaborators =
     \<lparr>np_random_randint = (\<lambda>n w. (0, w)),
      RandomState = (\<lambda>seed. if seed < 0 then Inl ValueError else Inr (nat seed)),
      rng_randint = (\<lambda>lo hi g. (lo, g)),
      rng_rand = (\<lambda>g. (real g / (real g + 1), Suc g)),
      get_hyperparameters =
        (\<lambda>c. [CategoricalHyperparameter [''a'', ''b'', ''c''], UniformFloatHyperparameter,
              UniformIntegerHyperparameter, Constant]),
      get_default_configuration = (\<lambda>c. \<lparr>cvalues = 0, origin = None\<rparr>),
      sample_configuration = (\<lambda>c. (\<lparr>cvalues = c, origin = None\<rparr>, Suc c)),
      impute_inactive_values = (\<lambda>c. c),
      get_array = (\<lambda>c. [real (cvalues c)]),
      RandomForestWithInstances = (\<lambda>tys fa seed. ()),
      model_train = (\<lambda>m X Y. m),
      acquisition_value =
        (\<lambda>m e row. case row of [] \<Rightarrow> 0 | x # xs \<Rightarrow> real_of_int \<lfloor>x / 2\<rfloor>),
      LocalSearch = (\<lambda>c. ()),
      local_search_maximize = (\<lambda>ls m e c. ((c, 0), ls)),
      rh2EPM_transform = (\<lambda>sc r rh m g. (([], []), m, g)),
      objective_cost = (\<lambda>obj c rh is. 1),
      status_truthy = (\<lambda>st. True),
      executor_run = (\<lambda>c i cut seed spec w. ((SUCCESS, 1, 1, []), w)),
      py_random_randint = (\<lambda>lo hi w. (lo, w)),
      intensify =
        (\<lambda>it ch inc rh obj tb w.
           ((case inc of Some c \<Rightarrow> c | None \<Rightarrow> \<lparr>cvalues = 0, origin = None\<rparr>, rh), w)),
      time_time = (\<lambda>w. (real w, Suc w)),
      Stats_start_timing = (\<lambda>w. w),
      Stats_get_remaing_time_budget = (\<lambda>w. (- 1, w)),
      Stats_get_remaining_ta_budget = (\<lambda>w. (- 1, w)),
      Stats_get_remaining_ta_runs = (\<lambda>w. (- 1, w))\<rparr>"

text \<open>The same, with a target algorithm that reports ABORT, or CRASHED.\<close>

definition toy_abort_collaborators :: "(nat, nat, nat, unit, unit, nat) collaborators" where
  "toy_abort_collaborators =
     toy_collaborators\<lparr>executor_run := (\<lambda>c i cut seed spec w. ((ABORT, 1, 1, []), w))\<rparr>"

definition toy_crashed_collaborators :: "(nat, nat, nat, unit, unit, nat) collaborators" where
  "toy_crashed_collaborators =
     toy_collaborators\<lparr>executor_run := (\<lambda>c i cut seed spec w. ((CRASHED, 1, 1, []), w))\<rparr>"

text \<open>The same, with counters that leave a trace in the world each time they are read.\<close>

definition toy_polls_collaborators :: "(nat, nat, nat, unit, unit, nat) collaborators" where
  "toy_polls_collaborators =
     toy_collaborators
       \<lparr>Stats_get_remaing_time_budget := (\<lambda>w. (- 1, w + 100)),
        Stats_get_remaining_ta_budget := (\<lambda>w. (- 1, w + 100)),
        Stats_get_remaining_ta_runs := (\<lambda>w. (- 1, w + 100))\<rparr>"

definition toy_scenario :: "string \<Rightarrow> nat Scenario" where
  "toy_scenario obj =
     \<lparr>cs = 0, feature_array = Some \<lparr>shape = (1, 2), cells = [[0, 0]]\<rparr>,
      train_insts = [''i1''], cutoff = 10, par_factor = 10, deterministic = True,
      run_obj = obj, instance_specific = []\<rparr>"

text \<open>The optimizer that the constructor builds for the toy scenario.\<close>

definition toy_smbo :: "string \<Rightarrow> (nat, nat, nat, unit, unit) SMBO" where
  "toy_smbo obj =
     \<lparr>rng = 7, scenario = toy_scenario obj, config_space = 0,
      types = [3, 0, 0, 0, 0, 0], model = (), acquisition_func = \<lparr>eta = None\<rparr>,
      local_search = (), incumbent = None,
      inten = \<lparr>inten_instances = [''i1''], inten_cutoff = 10, inten_deterministic = True,
               run_obj_time = (obj = ''runtime''), instance_specifics = []\<rparr>,
      rh2EPM = fst (init_rh2EPM (toy_scenario obj) 4),
      objective = snd (init_rh2EPM (toy_scenario obj) 4),
      runhistory = None\<rparr>"

text \<open>The toy optimizer at the start of \<open>run\<close>, and after the initial design.\<close>

definition toy_fresh :: "(nat, nat, nat, unit, unit) SMBO" where
  "toy_fresh = (toy_smbo ''quality'')\<lparr>runhistory := Some RunHistory_new\<rparr>"

definition toy_started :: "(nat, nat, nat, unit, unit) SMBO" where
  "toy_started =
     toy_fresh
       \<lparr>incumbent := Some \<lparr>cvalues = 0, origin = None\<rparr>,
        runhistory :=
          Some \<lparr>rh_data = [((0, ''i1'', 0),
                            \<lparr>rv_cost = 1, rv_time = 1, rv_status = SUCCESS,
                             rv_additional_info = []\<rparr>)],
                cost_per_config = [(0, 1)]\<rparr>\<rparr>"

section \<open>Construction\<close>

lemma param_types_Inr:
  "param_types ps = Inr ts \<Longrightarrow>
   ts = map (\<lambda>p. case p of CategoricalHyperparameter choices \<Rightarrow> length choices | _ \<Rightarrow> 0) ps"
proof (induction ps arbitrary: ts)
  case Nil
  then show ?case by simp
next
  case (Cons p ps)
  then show ?case
    by (cases p) (auto split: sum.splits)
qed

lemma param_types_succeeds:
  "OtherHyperparameter \<notin> set ps \<Longrightarrow> \<exists>ts. param_types ps = Inr ts"
proof (induction ps)
  case Nil
  then show ?case by simp
next
  case (Cons p ps)
  then show ?case by (cases p) auto
qed

lemma SMBO_init_types:
  "SMBO_init P sc a w = Inr (s, w') \<Longrightarrow>
   \<exists>ts. param_types (get_hyperparameters P (cs sc)) = Inr ts \<and>
        types s = extend_types ts (feature_array sc)"
  by (auto simp: SMBO_init_def Let_def split: sum.splits prod.splits)

lemma SMBO_init_rh2EPM:
  "SMBO_init P sc a w = Inr (s, w') \<Longrightarrow>
   rh2EPM s = fst (init_rh2EPM sc (length (get_hyperparameters P (cs sc))))"
  by (auto simp: SMBO_init_def Let_def split: sum.splits prod.splits)

lemma SMBO_init_succeeds:
  assumes "OtherHyperparameter \<notin> set (get_hyperparameters P (cs sc))"
    and "init_rng P a w = Inr (g, w')"
  shows "\<exists>s. SMBO_init P sc a w = Inr (s, w')"
proof -
  from param_types_succeeds [OF assms(1)] obtain ts where
    "param_types (get_hyperparameters P (cs sc)) = Inr ts" by blast
  with assms(2) show ?thesis
    by (simp add: SMBO_init_def Let_def split_beta)
qed

lemma toy_init:
  "SMBO_init toy_collaborators (toy_scenario obj) (RngInt 7) 0 = Inr (toy_smbo obj, 0)"
  by (simp add: SMBO_init_def toy_collaborators_def toy_scenario_def toy_smbo_def init_rng_def
      extend_types_def Let_def split_beta eval_nat_numeral)

text \<open>
  Claim C7. The type vector built by the constructor has one entry per hyperparameter, in
  the order of the configuration space, followed by one entry per column of the instance
  features: the number of choices for a categorical hyperparameter, 0 for a float, an
  integer or a constant, and 0 for every feature column.
\<close>

theorem types_vector:
  assumes "SMBO_init P sc a w = Inr (s, w')"
  shows "length (types s) =
           length (get_hyperparameters P (cs sc)) +
           (case feature_array sc of None \<Rightarrow> 0 | Some fa \<Rightarrow> snd (shape fa)) \<and>
         (\<forall>i < length (get_hyperparameters P (cs sc)).
            types s ! i =
              (case get_hyperparameters P (cs sc) ! i of
                 CategoricalHyperparameter choices \<Rightarrow> length choices
               | UniformFloatHyperparameter \<Rightarrow> 0
               | UniformIntegerHyperparameter \<Rightarrow> 0
               | Constant \<Rightarrow> 0
               | OtherHyperparameter \<Rightarrow> 0)) \<and>
         (\<forall>i. length (get_hyperparameters P (cs sc)) \<le> i \<and> i < length (types s) \<longrightarrow>
            types s ! i = 0)"
proof -
  obtain ts where ts: "param_types (get_hyperparameters P (cs sc)) = Inr ts"
    and tys: "types s = extend_types ts (feature_array sc)"
    using SMBO_init_types [OF assms] by auto
  have m: "ts = map (\<lambda>p. case p of CategoricalHyperparameter choices \<Rightarrow> length choices | _ \<Rightarrow> 0)
                  (get_hyperparameters P (cs sc))"
    using param_types_Inr [OF ts] .
  have len: "length ts = length (get_hyperparameters P (cs sc))"
    by (subst m) simp
  show ?thesis
  proof (intro conjI allI impI)
    show "length (types s) =
           length (get_hyperparameters P (cs sc)) +
           (case feature_array sc of None \<Rightarrow> 0 | Some fa \<Rightarrow> snd (shape fa))"
      by (simp add: tys extend_types_def len split: option.splits)
  next
    fix i assume i: "i < length (get_hyperparameters P (cs sc))"
    then have "types s ! i = ts ! i"
      by (simp add: tys extend_types_def len nth_append split: option.splits)
    also have "\<dots> = (case get_hyperparameters P (cs sc) ! i of
                 CategoricalHyperparameter choices \<Rightarrow> length choices | _ \<Rightarrow> 0)"
      using i by (subst m) simp
    finally show "types s ! i =
              (case get_hyperparameters P (cs sc) ! i of
                 CategoricalHyperparameter choices \<Rightarrow> length choices
               | UniformFloatHyperparameter \<Rightarrow> 0
               | UniformIntegerHyperparameter \<Rightarrow> 0
               | Constant \<Rightarrow> 0
               | OtherHyperparameter \<Rightarrow> 0)" .
  next
    fix i assume "length (get_hyperparameters P (cs sc)) \<le> i \<and> i < length (types s)"
    then show "types s ! i = 0"
      by (auto simp: tys extend_types_def len nth_append split: option.splits)
  qed
qed

theorem types_vector_witness:
  "SMBO_init toy_collaborators (toy_scenario ''quality'') (RngInt 7) 0 =
     Inr (toy_smbo ''quality'', 0) \<and>
   length (types (toy_smbo ''quality'')) = 4 + 2 \<and>
   types (toy_smbo ''quality'') ! 0 = 3 \<and>
   types (toy_smbo ''quality'') ! 3 = 0 \<and>
   types (toy_smbo ''quality'') ! 5 = 0"
proof -
  note t = types_vector [OF toy_init [of "''quality''"]]
  have h: "get_hyperparameters toy_collaborators (cs (toy_scenario ''quality'')) =
           [CategoricalHyperparameter [''a'', ''b'', ''c''], UniformFloatHyperparameter,
            UniformIntegerHyperparameter, Constant]"
    by (simp add: toy_collaborators_def)
  have f: "feature_array (toy_scenario ''quality'') = Some \<lparr>shape = (1, 2), cells = [[0, 0]]\<rparr>"
    by (simp add: toy_scenario_def)
  have l: "length (types (toy_smbo ''quality'')) = 4 + 2"
    using conjunct1 [OF t] by (simp add: h f)
  have a: "types (toy_smbo ''quality'') ! 0 = 3" "types (toy_smbo ''quality'') ! 3 = 0"
    using conjunct1 [OF conjunct2 [OF t]] by (simp_all add: h)
  have b: "types (toy_smbo ''quality'') ! 5 = 0"
    using conjunct2 [OF conjunct2 [OF t]] l by (simp add: h)
  show ?thesis using toy_init l a b by simp
qed

text \<open>
  Claim C6. The constructor configures the imputation of censored data for runs that
  timed out exactly when the objective is the runtime; the threshold of the imputation is
  then \<open>cutoff * par_factor\<close> on the \<open>log10\<close> scale. For any other objective, quality
  included, nothing is imputed. In both cases only SUCCESS counts as a success state.
\<close>

theorem imputation_iff_runtime:
  assumes "SMBO_init P sc a w = Inr (s, w')"
  shows "(impute_censored_data (rh2EPM s) \<longleftrightarrow> run_obj sc = ''runtime'') \<and>
         success_states (rh2EPM s) = [SUCCESS] \<and>
         (run_obj sc = ''runtime'' \<longrightarrow>
            impute_state (rh2EPM s) = Some [TIMEOUT] \<and> log_y (rh2EPM s) \<and>
            (\<exists>imp. imputor (rh2EPM s) = Some imp \<and>
                   imp_cutoff imp = log 10 (cutoff sc) \<and>
                   imp_threshold imp = log 10 (cutoff sc * par_factor sc))) \<and>
         (run_obj sc \<noteq> ''runtime'' \<longrightarrow>
            impute_state (rh2EPM s) = None \<and> imputor (rh2EPM s) = None \<and>
            \<not> log_y (rh2EPM s))"
  unfolding SMBO_init_rh2EPM [OF assms]
  by (simp add: init_rh2EPM_def Let_def)

theorem imputation_iff_runtime_witness:
  "impute_censored_data (rh2EPM (toy_smbo ''runtime'')) \<and>
   (\<exists>imp. imputor (rh2EPM (toy_smbo ''runtime'')) = Some imp \<and>
          imp_threshold imp = log 10 (10 * 10)) \<and>
   \<not> impute_censored_data (rh2EPM (toy_smbo ''quality'')) \<and>
   imputor (rh2EPM (toy_smbo ''quality'')) = None \<and>
   success_states (rh2EPM (toy_smbo ''quality'')) = [SUCCESS]"
  using imputation_iff_runtime [OF toy_init [of "''runtime''"]]
    imputation_iff_runtime [OF toy_init [of "''quality''"]]
  by (auto simp: toy_scenario_def)

section \<open>The initial design\<close>

lemma abort_test_is_singleton:
  "set [py_or P CRASHED ABORT] = {CRASHED} \<or> set [py_or P CRASHED ABORT] = {ABORT}"
  by (simp add: py_or_def)

lemma abort_not_tested:
  "status_truthy P CRASHED \<Longrightarrow> ABORT \<notin> set [py_or P CRASHED ABORT]"
  by (simp add: py_or_def)

lemma initial_design_exits_on_crashed:
  "run_initial_design toy_crashed_collaborators toy_fresh 0 = Inl (SystemExit 42)"
  by (simp add: run_initial_design_def toy_crashed_collaborators_def toy_collaborators_def
      toy_fresh_def toy_smbo_def toy_scenario_def py_index_def py_or_def dict_get_def
      Let_def)

text \<open>
  Claim C1. The initial design is meant to end the process when the first run is CRASHED
  or ABORT. The test \<open>status in [CRASHED or ABORT]\<close> compares with CRASHED alone: when
  the target algorithm reports ABORT, the run is added to the run history, its cost is
  stored, and the optimizer goes on.
\<close>

theorem initial_design_records_abort:
  "run_initial_design toy_abort_collaborators toy_fresh 0 =
   Inr (toy_fresh
          \<lparr>incumbent := Some \<lparr>cvalues = 0, origin = None\<rparr>,
           runhistory :=
             Some \<lparr>rh_data = [((0, ''i1'', 0),
                               \<lparr>rv_cost = 1, rv_time = 1, rv_status = ABORT,
                                rv_additional_info = []\<rparr>)],
                   cost_per_config = [(0, 1)]\<rparr>\<rparr>, 0)"
  by (simp add: run_initial_design_def toy_abort_collaborators_def toy_collaborators_def
      toy_fresh_def toy_smbo_def toy_scenario_def py_index_def py_or_def dict_get_def
      rh_add_def rh_update_cost_def RunHistory_new_def Let_def)

lemma toy_initial_design:
  "run_initial_design toy_collaborators toy_fresh 0 = Inr (toy_started, 0)"
  by (simp add: run_initial_design_def toy_collaborators_def toy_started_def
      toy_fresh_def toy_smbo_def toy_scenario_def py_index_def py_or_def dict_get_def
      rh_add_def rh_update_cost_def RunHistory_new_def Let_def)

section \<open>Proposing challengers\<close>

subsection \<open>Primitives\<close>

lemma length_sample_configurations: "length (fst (sample_configurations P n c)) = n"
  by (induction n arbitrary: c) (simp_all add: split_beta)

lemma length_rng_rand_n: "length (fst (rng_rand_n P n g)) = n"
  by (induction n arbitrary: g) (simp_all add: split_beta)

lemma length_lexsort: "length (lexsort r a) = length a"
  by (simp add: lexsort_def)

lemma mset_lexsort: "mset (lexsort r a) = mset [0..<length a]"
  by (simp add: lexsort_def)

lemma set_lexsort: "set (lexsort r a) = {0..<length a}"
  by (simp add: lexsort_def)

lemma sorted_lexsort: "sorted (map (\<lambda>i. (a ! i, r ! i)) (lexsort r a))"
  unfolding lexsort_def by (rule sorted_sort_key)

lemma length_sort_reverse: "length (sort_reverse f xs) = length xs"
  by (simp add: sort_reverse_def)

lemma mset_sort_reverse: "mset (sort_reverse f xs) = mset xs"
  by (simp add: sort_reverse_def)

lemma set_sort_reverse: "set (sort_reverse f xs) = set xs"
  by (simp add: sort_reverse_def)

lemma sort_reverse_descending: "sorted (rev (map f (sort_reverse f xs)))"
proof -
  have "sorted (map (\<lambda>x. - f x) (sort_reverse f xs))"
    unfolding sort_reverse_def by (rule sorted_sort_key)
  then show ?thesis
    by (simp add: sorted_wrt_rev sorted_wrt_map)
qed

lemma length_chain_zip:
  "length xs = length ys \<Longrightarrow> length (chain_zip xs ys) = 2 * length xs"
  by (induction xs ys rule: list_induct2) (simp_all add: chain_zip_def)

lemma chain_zip_Cons: "chain_zip (x # xs) (y # ys) = x # y # chain_zip xs ys"
  by (simp add: chain_zip_def)

lemma nth_chain_zip:
  "length xs = length ys \<Longrightarrow> i < length xs \<Longrightarrow>
   chain_zip xs ys ! (2 * i) = xs ! i \<and> chain_zip xs ys ! (2 * i + 1) = ys ! i"
proof (induction xs ys arbitrary: i rule: list_induct2)
  case Nil
  then show ?case by simp
next
  case (Cons x xs y ys)
  show ?case
  proof (cases i)
    case 0
    then show ?thesis by (simp add: chain_zip_Cons)
  next
    case (Suc j)
    with Cons.prems have "j < length xs" by simp
    from Cons.IH [OF this] Suc show ?thesis by (simp add: chain_zip_Cons)
  qed
qed

subsection \<open>Shuffle\<close>

lemma py_index_less: "py_index n i = Some j \<Longrightarrow> j < n"
  by (auto simp: py_index_def split: if_splits)

lemma shuffle_from_mset:
  "shuffle_from P k x g = Inr (x', g') \<Longrightarrow> k < length x \<or> k = 0 \<Longrightarrow> mset x' = mset x"
proof (induction k arbitrary: x g)
  case 0
  then show ?case by simp
next
  case (Suc k)
  obtain r g1 where r: "rng_rand P g = (r, g1)" by (cases "rng_rand P g")
  from Suc.prems(2) have k: "Suc k < length x" by simp
  from Suc.prems(1) r obtain j where
    j: "py_index (length x) (py_int (r * (real (Suc k) + 1))) = Some j"
    and rec: "shuffle_from P k (x[Suc k := x ! j, j := x ! Suc k]) g1 = Inr (x', g')"
    by (auto simp: Let_def split: option.splits)
  have jl: "j < length x" using py_index_less [OF j] .
  have "mset x' = mset (x[Suc k := x ! j, j := x ! Suc k])"
    using Suc.IH [OF rec] k by simp
  also have "\<dots> = mset x"
    using mset_swap [OF jl k] .
  finally show ?case .
qed

lemma shuffle_mset: "shuffle P x g = Inr (x', g') \<Longrightarrow> mset x' = mset x"
  unfolding shuffle_def
  by (rule shuffle_from_mset) (auto simp: less_Suc_eq_0_disj dest: gr0_implies_Suc)

subsection \<open>Random search\<close>

lemma random_search_length: "length (fst (get_next_by_random_search P n b s)) = n"
  by (simp add: get_next_by_random_search_def Let_def split_beta
      length_sample_configurations length_lexsort)

lemma random_search_frame:
  "model (snd (get_next_by_random_search P n b s)) = model s \<and>
   acquisition_func (snd (get_next_by_random_search P n b s)) = acquisition_func s \<and>
   local_search (snd (get_next_by_random_search P n b s)) = local_search s \<and>
   incumbent (snd (get_next_by_random_search P n b s)) = incumbent s \<and>
   runhistory (snd (get_next_by_random_search P n b s)) = runhistory s"
  by (simp add: get_next_by_random_search_def Let_def split_beta)


lemma random_search_unsorted_origin:
  "c \<in> snd ` set (fst (get_next_by_random_search P n False s)) \<Longrightarrow>
   origin c = Some ''Random Search''"
  by (auto simp: get_next_by_random_search_def Let_def split_beta)

lemma random_search_sorted_origin:
  assumes "c \<in> snd ` set (fst (get_next_by_random_search P n True s))"
  shows "origin c = Some ''Random Search (sorted)''"
proof -
  define configs where "configs = fst (sample_configurations P n (config_space s))"
  define tagged where
    "tagged = map (\<lambda>c. c\<lparr>origin := Some ''Random Search (sorted)''\<rparr>) configs"
  have len: "length configs = n"
    by (simp add: configs_def length_sample_configurations)
  from assms obtain ind where "ind < n" and "c = tagged ! ind"
    by (auto simp: get_next_by_random_search_def Let_def split_beta set_lexsort
        configs_def tagged_def length_sample_configurations)
  then show ?thesis
    by (simp add: tagged_def len)
qed

subsection \<open>Local search\<close>

lemma local_search_loop_length:
  "length (fst (local_search_loop P i n acc s)) = length acc + n"
  by (induction n arbitrary: i acc s) (simp_all add: split_beta Let_def)

lemma local_search_loop_frame:
  "rng (snd (local_search_loop P i n acc s)) = rng s \<and>
   model (snd (local_search_loop P i n acc s)) = model s \<and>
   acquisition_func (snd (local_search_loop P i n acc s)) = acquisition_func s \<and>
   incumbent (snd (local_search_loop P i n acc s)) = incumbent s \<and>
   runhistory (snd (local_search_loop P i n acc s)) = runhistory s"
  by (induction n arbitrary: i acc s) (simp_all add: split_beta Let_def)


lemma local_search_loop_origin:
  "\<forall>c \<in> snd ` set acc. origin c = Some ''Local Search'' \<Longrightarrow>
   \<forall>c \<in> snd ` set (fst (local_search_loop P i n acc s)). origin c = Some ''Local Search''"
proof (induction n arbitrary: i acc s)
  case 0
  then show ?case by simp
next
  case (Suc n)
  show ?case
    apply (simp only: local_search_loop.simps split_beta Let_def)
    apply (rule Suc.IH)
    using Suc.prems apply auto
    done
qed

lemma local_search_result:
  assumes "get_next_by_local_search P n s = Inr (l, s')"
  shows "length l = n \<and> sorted (rev (map fst l)) \<and>
         (\<forall>c \<in> snd ` set l. origin c = Some ''Local Search'') \<and>
         model s' = model s \<and> acquisition_func s' = acquisition_func s \<and>
         incumbent s' = incumbent s \<and> runhistory s' = runhistory s"
proof -
  define r where "r = local_search_loop P 0 n [] s"
  from assms obtain sh g' where
    sh: "shuffle P (fst r) (rng (snd r)) = Inr (sh, g')"
    and l: "l = sort_reverse fst sh" and s': "s' = (snd r)\<lparr>rng := g'\<rparr>"
    by (auto simp: get_next_by_local_search_def r_def split_beta Let_def split: sum.splits)
  have m: "mset sh = mset (fst r)" using shuffle_mset [OF sh] .
  have "length sh = length (fst r)" using m by (rule mset_eq_length)
  then have len: "length l = n"
    by (simp add: l length_sort_reverse r_def local_search_loop_length)
  have "set sh = set (fst r)" using m by (rule mset_eq_setD)
  moreover have "\<forall>c \<in> snd ` set (fst r). origin c = Some ''Local Search''"
    unfolding r_def by (rule local_search_loop_origin) simp
  ultimately have org: "\<forall>c \<in> snd ` set l. origin c = Some ''Local Search''"
    by (simp add: l set_sort_reverse)
  have srt: "sorted (rev (map fst l))"
    unfolding l by (rule sort_reverse_descending)
  show ?thesis
    using len org srt local_search_loop_frame [of P 0 n "[]" s]
    by (simp add: s' r_def)
qed


lemma incumbent_value_model [simp]:
  "incumbent_value (s\<lparr>model := m\<rparr>) = incumbent_value s"
  by (simp add: incumbent_value_def split: option.splits)

lemma choose_next_pools_err:
  "incumbent_value s = Inl e \<Longrightarrow> choose_next_pools P s X Y = Inl e"
  by (simp add: choose_next_pools_def Let_def)

lemma choose_next_pools_alt:
  "incumbent_value s = Inr v \<Longrightarrow>
   choose_next_pools P s X Y =
     map_sum id
       (\<lambda>(ls, s4).
          (sort_reverse fst
             (fst (get_next_by_random_search P 1000 True
                     (snd (get_next_by_random_search P 1010 False (after_update P s X Y v)))) @
              ls),
           map snd (fst (get_next_by_random_search P 1010 False (after_update P s X Y v))),
           s4))
       (get_next_by_local_search P 10
          (snd (get_next_by_random_search P 1000 True
                  (snd (get_next_by_random_search P 1010 False (after_update P s X Y v))))))"
  by (simp add: choose_next_pools_def Let_def split_beta after_update_def split: sum.splits)

lemma choose_next_pools_Inr:
  assumes "choose_next_pools P s X Y = Inr (scored, rnd, s')"
  shows "\<exists>v ls.
           incumbent_value s = Inr v \<and>
           rnd = map snd (fst (get_next_by_random_search P 1010 False (after_update P s X Y v))) \<and>
           get_next_by_local_search P 10
             (snd (get_next_by_random_search P 1000 True
                (snd (get_next_by_random_search P 1010 False (after_update P s X Y v))))) =
             Inr (ls, s') \<and>
           scored = sort_reverse fst
             (fst (get_next_by_random_search P 1000 True
                (snd (get_next_by_random_search P 1010 False (after_update P s X Y v)))) @ ls)"
proof (cases "incumbent_value s")
  case (Inl e)
  with assms show ?thesis by (simp add: choose_next_pools_err)
next
  case v: (Inr v)
  let ?G = "get_next_by_local_search P 10
             (snd (get_next_by_random_search P 1000 True
                (snd (get_next_by_random_search P 1010 False (after_update P s X Y v)))))"
  show ?thesis
  proof (cases ?G)
    case (Inl e)
    with assms v show ?thesis by (simp add: choose_next_pools_alt)
  next
    case (Inr p)
    with assms v show ?thesis by (cases p) (auto simp: choose_next_pools_alt)
  qed
qed

lemma choose_next_Inr:
  "choose_next P s X Y = Inr (ch, s') \<Longrightarrow>
   \<exists>scored rnd. choose_next_pools P s X Y = Inr (scored, rnd, s') \<and>
                ch = chain_zip (map snd scored) rnd"
  by (auto simp: choose_next_def split: sum.splits)

lemma choose_next_pools_facts:
  assumes "choose_next_pools P s X Y = Inr (scored, rnd, s')"
  shows "length scored = 1010" and "length rnd = 1010"
    and "sorted (rev (map fst scored))"
    and "\<forall>c \<in> set rnd. origin c = Some ''Random Search''"
    and "\<forall>c \<in> snd ` set scored.
           origin c = Some ''Random Search (sorted)'' \<or> origin c = Some ''Local Search''"
    and "\<exists>v. incumbent_value s = Inr v \<and> eta (acquisition_func s') = Some v"
    and "incumbent s' = incumbent s" and "runhistory s' = runhistory s"
    and "model s' = model_train P (model s) X Y"
proof -
  from choose_next_pools_Inr [OF assms] obtain v ls where
    v: "incumbent_value s = Inr v"
    and rnd: "rnd = map snd (fst (get_next_by_random_search P 1010 False (after_update P s X Y v)))"
    and ls: "get_next_by_local_search P 10
             (snd (get_next_by_random_search P 1000 True
                (snd (get_next_by_random_search P 1010 False (after_update P s X Y v))))) =
             Inr (ls, s')"
    and scored: "scored = sort_reverse fst
             (fst (get_next_by_random_search P 1000 True
                (snd (get_next_by_random_search P 1010 False (after_update P s X Y v)))) @ ls)"
    by blast
  note L = local_search_result [OF ls]
  show "length scored = 1010"
    using L by (simp add: scored length_sort_reverse random_search_length)
  show "length rnd = 1010"
    by (simp add: rnd random_search_length)
  show "sorted (rev (map fst scored))"
    unfolding scored by (rule sort_reverse_descending)
  show "\<forall>c \<in> set rnd. origin c = Some ''Random Search''"
    unfolding rnd using random_search_unsorted_origin by fastforce
  show "\<forall>c \<in> snd ` set scored.
           origin c = Some ''Random Search (sorted)'' \<or> origin c = Some ''Local Search''"
  proof -
    have "\<forall>c \<in> snd ` set (fst (get_next_by_random_search P 1000 True
                (snd (get_next_by_random_search P 1010 False (after_update P s X Y v))))).
            origin c = Some ''Random Search (sorted)''"
      using random_search_sorted_origin by blast
    with L show ?thesis
      by (auto simp: scored set_sort_reverse)
  qed
  have "eta (acquisition_func s') = Some v"
    using L by (simp add: random_search_frame after_update_def)
  with v show "\<exists>v. incumbent_value s = Inr v \<and> eta (acquisition_func s') = Some v"
    by blast
  show "incumbent s' = incumbent s"
    using L by (simp add: random_search_frame after_update_def)
  show "runhistory s' = runhistory s"
    using L by (simp add: random_search_frame after_update_def)
  show "model s' = model_train P (model s) X Y"
    using L by (simp add: random_search_frame after_update_def)
qed

lemma random_search_sorted_eq:
  "fst (get_next_by_random_search P n True s) =
   map (\<lambda>i. (random_search_acq_values P n s ! i,
             (fst (sample_configurations P n (config_space s)) ! i)
               \<lparr>origin := Some ''Random Search (sorted)''\<rparr>))
     (rev (lexsort (random_search_tiebreak P n s) (random_search_acq_values P n s)))"
proof -
  have len: "length (random_search_acq_values P n s) = n"
    by (simp add: random_search_acq_values_def length_sample_configurations)
  have "\<forall>i \<in> set (rev (lexsort (random_search_tiebreak P n s) (random_search_acq_values P n s))).
          i < n"
    by (simp add: set_lexsort len)
  then show ?thesis
    by (simp add: get_next_by_random_search_def Let_def split_beta random_search_acq_values_def
        random_search_tiebreak_def length_sample_configurations o_def)
qed

lemma lexsort_descending:
  assumes "p < q" "q < length a"
  shows "(a ! (rev (lexsort r a) ! q), r ! (rev (lexsort r a) ! q)) \<le>
         (a ! (rev (lexsort r a) ! p), r ! (rev (lexsort r a) ! p))"
proof -
  let ?l = "lexsort r a"
  let ?n = "length a"
  have len: "length ?l = ?n" by (rule length_lexsort)
  have s: "sorted (map (\<lambda>i. (a ! i, r ! i)) ?l)" by (rule sorted_lexsort)
  have pq: "?n - Suc q \<le> ?n - Suc p" "?n - Suc p < ?n" using assms by auto
  have "map (\<lambda>i. (a ! i, r ! i)) ?l ! (?n - Suc q) \<le> map (\<lambda>i. (a ! i, r ! i)) ?l ! (?n - Suc p)"
    using s pq by (intro sorted_nth_mono) (simp_all add: len)
  moreover have "rev ?l ! q = ?l ! (?n - Suc q)" "rev ?l ! p = ?l ! (?n - Suc p)"
    using assms by (simp_all add: rev_nth len)
  ultimately show ?thesis
    using pq assms by (simp add: len)
qed

subsection \<open>When the generator honours its contract, nothing raises\<close>

lemma py_index_unit_interval:
  assumes "0 \<le> r" "r < 1" "i < n"
  shows "\<exists>j. py_index n (py_int (r * (real i + 1))) = Some j"
proof -
  have "0 \<le> r * (real i + 1)" using assms by simp
  moreover have "r * (real i + 1) < real i + 1"
    using assms by (simp add: mult_less_cancel_right2)
  then have "\<lfloor>r * (real i + 1)\<rfloor> < int i + 1"
    by (subst floor_less_iff) simp
  ultimately show ?thesis
    using assms by (simp add: py_index_def py_int_def)
qed

lemma shuffle_from_succeeds:
  assumes "\<forall>g. 0 \<le> fst (rng_rand P g) \<and> fst (rng_rand P g) < 1"
  shows "k < length x \<or> k = 0 \<Longrightarrow> \<exists>x' g'. shuffle_from P k x g = Inr (x', g')"
proof (induction k arbitrary: x g)
  case 0
  then show ?case by simp
next
  case (Suc k)
  obtain r g1 where r: "rng_rand P g = (r, g1)" by (cases "rng_rand P g")
  with assms have "0 \<le> r" "r < 1" by (metis fst_conv)+
  moreover from Suc.prems have "Suc k < length x" by simp
  ultimately obtain j where j: "py_index (length x) (py_int (r * (real (Suc k) + 1))) = Some j"
    using py_index_unit_interval by blast
  have "k < length (x[Suc k := x ! j, j := x ! Suc k]) \<or> k = 0"
    using \<open>Suc k < length x\<close> by simp
  from Suc.IH [OF this] show ?case
    using r j by (simp add: Let_def)
qed

lemma shuffle_succeeds:
  assumes "\<forall>g. 0 \<le> fst (rng_rand P g) \<and> fst (rng_rand P g) < 1"
  shows "\<exists>x' g'. shuffle P x g = Inr (x', g')"
  unfolding shuffle_def
  by (rule shuffle_from_succeeds [OF assms]) (cases x; simp)

lemma local_search_succeeds:
  assumes "\<forall>g. 0 \<le> fst (rng_rand P g) \<and> fst (rng_rand P g) < 1"
  shows "\<exists>l s'. get_next_by_local_search P n s = Inr (l, s')"
proof -
  obtain x' g' where
    "shuffle P (fst (local_search_loop P 0 n [] s)) (rng (snd (local_search_loop P 0 n [] s))) =
     Inr (x', g')"
    using shuffle_succeeds [OF assms] by blast
  then show ?thesis
    by (simp add: get_next_by_local_search_def split_beta Let_def)
qed

lemma choose_next_succeeds:
  assumes "\<forall>g. 0 \<le> fst (rng_rand P g) \<and> fst (rng_rand P g) < 1"
    and "incumbent_value s = Inr v"
  shows "\<exists>ch s'. choose_next P s X Y = Inr (ch, s')"
proof -
  obtain l s' where
    "get_next_by_local_search P 10
       (snd (get_next_by_random_search P 1000 True
          (snd (get_next_by_random_search P 1010 False (after_update P s X Y v))))) = Inr (l, s')"
    using local_search_succeeds [OF assms(1)] by blast
  then show ?thesis
    by (simp add: choose_next_def choose_next_pools_alt [OF assms(2)])
qed

lemma choose_next_error:
  "incumbent_value s = Inl e \<Longrightarrow> choose_next P s X Y = Inl e"
  by (simp add: choose_next_def choose_next_pools_err)

subsection \<open>The toy instance proposes challengers\<close>

lemma toy_unit_interval:
  "\<forall>g. 0 \<le> fst (rng_rand toy_collaborators g) \<and> fst (rng_rand toy_collaborators g) < 1"
  by (simp add: toy_collaborators_def)

lemma toy_fresh_value: "incumbent_value toy_fresh = Inr 0"
  by (simp add: incumbent_value_def toy_fresh_def rh_empty_def RunHistory_new_def)

lemma toy_started_value: "incumbent_value toy_started = Inr 1"
  by (simp add: incumbent_value_def toy_started_def toy_fresh_def rh_empty_def rh_get_cost_def)

lemma toy_choose_next:
  "\<exists>ch s'. choose_next toy_collaborators toy_started [] [] = Inr (ch, s')"
  using choose_next_succeeds [OF toy_unit_interval toy_started_value] .

lemma toy_choose_next_fresh:
  "\<exists>ch s'. choose_next toy_collaborators toy_fresh [] [] = Inr (ch, s')"
  using choose_next_succeeds [OF toy_unit_interval toy_fresh_value] .

lemma toy_pools:
  "\<exists>scored rnd s'. choose_next_pools toy_collaborators toy_started [] [] = Inr (scored, rnd, s')"
  using toy_choose_next choose_next_Inr by blast

lemma toy_sorted_random_search:
  "map (\<lambda>(a, c). (a, cvalues c)) (fst (get_next_by_random_search toy_collaborators 4 True toy_started)) =
   [(1, 3), (1, 2), (0, 1), (0, 0)]"
  by (simp add: get_next_by_random_search_def toy_collaborators_def toy_started_def
      toy_fresh_def toy_smbo_def lexsort_def Let_def split_beta eval_nat_numeral upt_rec)

subsection \<open>Sampling\<close>

lemma sample_configurations_add:
  "sample_configurations P (m + n) c =
     (fst (sample_configurations P m c) @
        fst (sample_configurations P n (snd (sample_configurations P m c))),
      snd (sample_configurations P n (snd (sample_configurations P m c))))"
  by (induction m arbitrary: c) (simp_all add: split_beta)

lemma sample_configurations_2010:
  "fst (sample_configurations P 2010 c) =
     fst (sample_configurations P 1010 c) @
     fst (sample_configurations P 1000 (snd (sample_configurations P 1010 c)))"
  "snd (sample_configurations P 2010 c) =
     snd (sample_configurations P 1000 (snd (sample_configurations P 1010 c)))"
proof -
  have "(2010::nat) = 1010 + 1000" by simp
  then have "sample_configurations P 2010 c = sample_configurations P (1010 + 1000) c"
    by simp
  then show
    "fst (sample_configurations P 2010 c) =
       fst (sample_configurations P 1010 c) @
       fst (sample_configurations P 1000 (snd (sample_configurations P 1010 c)))"
    "snd (sample_configurations P 2010 c) =
       snd (sample_configurations P 1000 (snd (sample_configurations P 1010 c)))"
    by (simp_all only: sample_configurations_add fst_conv snd_conv)
qed


lemma random_search_config_space:
  "config_space (snd (get_next_by_random_search P n b s)) =
   snd (sample_configurations P n (config_space s))"
  by (simp add: get_next_by_random_search_def Let_def split_beta)

lemma random_search_unsorted_eq:
  "map snd (fst (get_next_by_random_search P n False s)) =
   map (\<lambda>c. c\<lparr>origin := Some ''Random Search''\<rparr>) (fst (sample_configurations P n (config_space s)))"
  by (simp add: get_next_by_random_search_def Let_def split_beta o_def)

lemma after_update_fields [simp]:
  "config_space (after_update P s X Y v) = config_space s"
  "model (after_update P s X Y v) = model_train P (model s) X Y"
  "eta (acquisition_func (after_update P s X Y v)) = Some v"
  by (simp_all add: after_update_def)

lemma incumbent_value_config_space [simp]:
  "incumbent_value (s\<lparr>config_space := c\<rparr>) = incumbent_value s"
  by (simp add: incumbent_value_def split: option.splits)


lemma toy_sampler: "snd (sample_configurations toy_collaborators n c) = c + n"
  by (induction n arbitrary: c) (simp_all add: split_beta toy_collaborators_def)

subsection \<open>Claims about \<open>choose_next\<close>\<close>

text \<open>
  Claim C2. Whenever \<open>choose_next\<close> returns, its result alternates the two pools: the
  element at position \<open>2 * i\<close> is the \<open>i\<close>-th configuration of the merge of the sorted
  random search and the local search, which is in descending order of acquisition value,
  and the element at position \<open>2 * i + 1\<close> is the \<open>i\<close>-th configuration of the unscored
  random pool. The provenance tags agree: a sorted random search or a local search at the
  even positions, a plain random search at the odd ones.
\<close>

theorem challengers_interleaved:
  assumes "choose_next P s X Y = Inr (ch, s')"
  shows "\<exists>scored rnd.
           choose_next_pools P s X Y = Inr (scored, rnd, s') \<and>
           sorted (rev (map fst scored)) \<and>
           (\<forall>i < 1010.
              ch ! (2 * i) = snd (scored ! i) \<and>
              ch ! (2 * i + 1) = rnd ! i \<and>
              (origin (ch ! (2 * i)) = Some ''Random Search (sorted)'' \<or>
               origin (ch ! (2 * i)) = Some ''Local Search'') \<and>
              origin (ch ! (2 * i + 1)) = Some ''Random Search'')"
proof -
  from choose_next_Inr [OF assms] obtain scored rnd where
    p: "choose_next_pools P s X Y = Inr (scored, rnd, s')"
    and ch: "ch = chain_zip (map snd scored) rnd"
    by blast
  note f = choose_next_pools_facts [OF p]
  have len: "length (map snd scored) = length rnd" using f(1,2) by simp
  have nth: "ch ! (2 * i) = snd (scored ! i) \<and> ch ! (2 * i + 1) = rnd ! i" if "i < 1010" for i
    using nth_chain_zip [OF len, of i] that f(1) by (simp add: ch)
  have o1: "origin (snd (scored ! i)) = Some ''Random Search (sorted)'' \<or>
            origin (snd (scored ! i)) = Some ''Local Search''" if "i < 1010" for i
  proof -
    have "scored ! i \<in> set scored" using that f(1) by simp
    then have "snd (scored ! i) \<in> snd ` set scored" by (rule imageI)
    with f(5) show ?thesis by blast
  qed
  have o2: "origin (rnd ! i) = Some ''Random Search''" if "i < 1010" for i
    using f(4) that f(2) by simp
  show ?thesis
    using p f(3) nth o1 o2 by (intro exI [of _ scored] exI [of _ rnd]) simp
qed

theorem challengers_interleaved_witness:
  "\<exists>ch s' scored rnd.
     choose_next toy_collaborators toy_started [] [] = Inr (ch, s') \<and>
     choose_next_pools toy_collaborators toy_started [] [] = Inr (scored, rnd, s') \<and>
     ch ! 0 = snd (scored ! 0) \<and> ch ! 1 = rnd ! 0 \<and>
     ch ! 2 = snd (scored ! 1) \<and> ch ! 3 = rnd ! 1 \<and>
     origin (ch ! 1) = Some ''Random Search''"
proof -
  from toy_choose_next obtain ch s' where
    c: "choose_next toy_collaborators toy_started [] [] = Inr (ch, s')" by blast
  from challengers_interleaved [OF c] obtain scored rnd where
    p: "choose_next_pools toy_collaborators toy_started [] [] = Inr (scored, rnd, s')"
    and a: "\<forall>i < 1010.
              ch ! (2 * i) = snd (scored ! i) \<and>
              ch ! (2 * i + 1) = rnd ! i \<and>
              (origin (ch ! (2 * i)) = Some ''Random Search (sorted)'' \<or>
               origin (ch ! (2 * i)) = Some ''Local Search'') \<and>
              origin (ch ! (2 * i + 1)) = Some ''Random Search''"
    by blast
  have f0: "ch ! 0 = snd (scored ! 0)" "ch ! 1 = rnd ! 0"
    "origin (ch ! 1) = Some ''Random Search''"
    using a [rule_format, of 0] by auto
  have f1: "ch ! 2 = snd (scored ! 1)" "ch ! 3 = rnd ! 1"
    using a [rule_format, of 1] by auto
  show ?thesis using c p f0 f1 by blast
qed

text \<open>
  Claim C10. Whenever \<open>choose_next\<close> returns, it returns 2020 configurations: the merge
  has 1010 elements, the 1000 of the sorted random search and the 10 of the local search,
  and it is zipped with an unscored random pool of 1010 configurations.
\<close>

theorem challengers_count:
  assumes "choose_next P s X Y = Inr (ch, s')"
  shows "length ch = 2020 \<and>
         (\<exists>scored rnd.
            choose_next_pools P s X Y = Inr (scored, rnd, s') \<and>
            ch = chain_zip (map snd scored) rnd \<and>
            length scored = 1010 \<and> length rnd = 1010 \<and>
            (\<exists>t u sorted_random by_local_search.
               sorted_random = fst (get_next_by_random_search P 1000 True t) \<and>
               get_next_by_local_search P 10 u = Inr (by_local_search, s') \<and>
               length sorted_random = 1000 \<and> length by_local_search = 10 \<and>
               mset scored = mset sorted_random + mset by_local_search))"
proof -
  from choose_next_Inr [OF assms] obtain scored rnd where
    p: "choose_next_pools P s X Y = Inr (scored, rnd, s')"
    and ch: "ch = chain_zip (map snd scored) rnd"
    by blast
  note f = choose_next_pools_facts [OF p]
  from choose_next_pools_Inr [OF p] obtain v ls where
    ls: "get_next_by_local_search P 10
             (snd (get_next_by_random_search P 1000 True
                (snd (get_next_by_random_search P 1010 False (after_update P s X Y v))))) =
             Inr (ls, s')"
    and scored: "scored = sort_reverse fst
             (fst (get_next_by_random_search P 1000 True
                (snd (get_next_by_random_search P 1010 False (after_update P s X Y v)))) @ ls)"
    by blast
  have "length ch = 2 * length (map snd scored)"
    unfolding ch using f(1,2) by (intro length_chain_zip) simp
  then have l: "length ch = 2020" using f(1) by simp
  have ll: "length ls = 10" using local_search_result [OF ls] by simp
  have m: "mset scored =
           mset (fst (get_next_by_random_search P 1000 True
                (snd (get_next_by_random_search P 1010 False (after_update P s X Y v))))) +
           mset ls"
    by (simp add: scored mset_sort_reverse)
  show ?thesis
    using l p ch f(1,2) ls ll m random_search_length [of P 1000 True]
    by blast
qed

theorem challengers_count_witness:
  "\<exists>ch s'. choose_next toy_collaborators toy_started [] [] = Inr (ch, s') \<and> length ch = 2020"
proof -
  from toy_choose_next obtain ch s' where
    c: "choose_next toy_collaborators toy_started [] [] = Inr (ch, s')" by blast
  from challengers_count [OF c] c show ?thesis by blast
qed

text \<open>
  Claim C8. Whenever \<open>choose_next\<close> returns, the threshold \<open>eta\<close> of the acquisition
  function is 0 if the run history is empty and the cost that the run history holds for
  the incumbent otherwise.
\<close>

theorem eta_is_incumbent_cost:
  assumes "choose_next P s X Y = Inr (ch, s')"
  shows "\<exists>rh. runhistory s = Some rh \<and>
              (if rh_empty rh then eta (acquisition_func s') = Some 0
               else \<exists>c. rh_get_cost rh (incumbent s) = Inr c \<and>
                        eta (acquisition_func s') = Some c)"
proof -
  from choose_next_Inr [OF assms] obtain scored rnd where
    p: "choose_next_pools P s X Y = Inr (scored, rnd, s')"
    by blast
  from choose_next_pools_facts(6) [OF p] obtain v where
    v: "incumbent_value s = Inr v" and e: "eta (acquisition_func s') = Some v"
    by blast
  from v obtain rh where rh: "runhistory s = Some rh"
    by (auto simp: incumbent_value_def split: option.splits)
  with v have "if rh_empty rh then v = 0 else rh_get_cost rh (incumbent s) = Inr v"
    by (auto simp: incumbent_value_def split: if_splits)
  with rh e show ?thesis by (auto split: if_splits)
qed

theorem eta_is_incumbent_cost_witness:
  "(\<exists>ch s'. choose_next toy_collaborators toy_started [] [] = Inr (ch, s') \<and>
            eta (acquisition_func s') = Some 1) \<and>
   (\<exists>ch s'. choose_next toy_collaborators toy_fresh [] [] = Inr (ch, s') \<and>
            eta (acquisition_func s') = Some 0)"
proof
  from toy_choose_next obtain ch s' where
    c: "choose_next toy_collaborators toy_started [] [] = Inr (ch, s')" by blast
  have "eta (acquisition_func s') = Some 1"
    using eta_is_incumbent_cost [OF c]
    by (simp add: toy_started_def toy_fresh_def rh_empty_def rh_get_cost_def)
  with c show "\<exists>ch s'. choose_next toy_collaborators toy_started [] [] = Inr (ch, s') \<and>
                       eta (acquisition_func s') = Some 1"
    by blast
next
  from toy_choose_next_fresh obtain ch s' where
    c: "choose_next toy_collaborators toy_fresh [] [] = Inr (ch, s')" by blast
  have "eta (acquisition_func s') = Some 0"
    using eta_is_incumbent_cost [OF c]
    by (simp add: toy_fresh_def rh_empty_def RunHistory_new_def)
  with c show "\<exists>ch s'. choose_next toy_collaborators toy_fresh [] [] = Inr (ch, s') \<and>
                       eta (acquisition_func s') = Some 0"
    by blast
qed




text \<open>
  Claim C5, as stated, fails: the unscored pool of \<open>choose_next\<close> does not have 10
  configurations. On the toy instance it has 1010.
\<close>

theorem unscored_pool_is_not_ten:
  "\<not> isl (choose_next_pools toy_collaborators toy_started [] []) \<and>
   length (fst (snd (projr (choose_next_pools toy_collaborators toy_started [] [])))) = 1010 \<and>
   length (fst (snd (projr (choose_next_pools toy_collaborators toy_started [] [])))) \<noteq> 10"
proof -
  from toy_pools obtain scored rnd s' where
    p: "choose_next_pools toy_collaborators toy_started [] [] = Inr (scored, rnd, s')" by blast
  from choose_next_pools_facts(2) [OF p] p show ?thesis by simp
qed

text \<open>
  Claim C5, amended. A call of \<open>choose_next\<close> that returns draws 2010 configurations
  from the sampler for its random search, in two calls: the first 1010 draws, tagged, are
  the unscored pool; the next 1000 draws are the ones that the sorted random search
  scores, with the retrained model and the new threshold, and the merge holds them next
  to the 10 results of the local search. A sorted random search returns its \<open>n\<close>
  configurations, each once, in descending order of acquisition value, and where the
  values tie in descending order of the tiebreaker drawn from the generator.
\<close>

theorem random_search_draws_and_order:
  "(choose_next_pools P s X Y = Inr (scored, rnd, s') \<longrightarrow>
      (\<exists>v t1 t2 sorted_random by_local_search.
         incumbent_value s = Inr v \<and>
         t1 = snd (get_next_by_random_search P 1010 False (after_update P s X Y v)) \<and>
         t2 = snd (get_next_by_random_search P 1000 True t1) \<and>
         rnd = map (\<lambda>c. c\<lparr>origin := Some ''Random Search''\<rparr>)
                 (take 1010 (fst (sample_configurations P 2010 (config_space s)))) \<and>
         length rnd = 1010 \<and>
         fst (sample_configurations P 1000 (config_space t1)) =
           drop 1010 (fst (sample_configurations P 2010 (config_space s))) \<and>
         model t1 = model_train P (model s) X Y \<and>
         eta (acquisition_func t1) = Some v \<and>
         sorted_random = fst (get_next_by_random_search P 1000 True t1) \<and>
         length sorted_random = 1000 \<and>
         config_space t2 = snd (sample_configurations P 2010 (config_space s)) \<and>
         get_next_by_local_search P 10 t2 = Inr (by_local_search, s') \<and>
         length by_local_search = 10 \<and>
         mset scored = mset sorted_random + mset by_local_search)) \<and>
   (\<exists>perm.
      mset perm = mset [0..<n] \<and>
      fst (get_next_by_random_search P n True t) =
        map (\<lambda>i. (random_search_acq_values P n t ! i,
                  (fst (sample_configurations P n (config_space t)) ! i)
                    \<lparr>origin := Some ''Random Search (sorted)''\<rparr>)) perm \<and>
      (\<forall>p q. p < q \<and> q < n \<longrightarrow>
         random_search_acq_values P n t ! (perm ! q) <
           random_search_acq_values P n t ! (perm ! p) \<or>
         random_search_acq_values P n t ! (perm ! q) =
           random_search_acq_values P n t ! (perm ! p) \<and>
         random_search_tiebreak P n t ! (perm ! q) \<le>
           random_search_tiebreak P n t ! (perm ! p)))"
proof (intro conjI impI)
  assume p: "choose_next_pools P s X Y = Inr (scored, rnd, s')"
  from choose_next_pools_Inr [OF p] obtain v ls where
    v: "incumbent_value s = Inr v"
    and rnd: "rnd = map snd (fst (get_next_by_random_search P 1010 False (after_update P s X Y v)))"
    and ls: "get_next_by_local_search P 10
             (snd (get_next_by_random_search P 1000 True
                (snd (get_next_by_random_search P 1010 False (after_update P s X Y v))))) =
             Inr (ls, s')"
    and scored: "scored = sort_reverse fst
             (fst (get_next_by_random_search P 1000 True
                (snd (get_next_by_random_search P 1010 False (after_update P s X Y v)))) @ ls)"
    by blast
  define t1 where "t1 = snd (get_next_by_random_search P 1010 False (after_update P s X Y v))"
  define t2 where "t2 = snd (get_next_by_random_search P 1000 True t1)"
  let ?D = "fst (sample_configurations P 2010 (config_space s))"
  have c1: "config_space t1 = snd (sample_configurations P 1010 (config_space s))"
    by (simp add: t1_def random_search_config_space)
  have l1010: "length (fst (sample_configurations P 1010 (config_space s))) = 1010"
    by (rule length_sample_configurations)
  have tk: "take 1010 ?D = fst (sample_configurations P 1010 (config_space s))"
    by (simp add: sample_configurations_2010(1) l1010)
  have dr: "drop 1010 ?D = fst (sample_configurations P 1000 (config_space t1))"
    by (simp add: sample_configurations_2010(1) l1010 c1)
  have a: "rnd = map (\<lambda>c. c\<lparr>origin := Some ''Random Search''\<rparr>) (take 1010 ?D)"
    by (simp only: rnd random_search_unsorted_eq tk after_update_fields)
  have b: "length rnd = 1010" using choose_next_pools_facts(2) [OF p] .
  have m: "model t1 = model_train P (model s) X Y" "eta (acquisition_func t1) = Some v"
    using random_search_frame [of P 1010 False "after_update P s X Y v"]
    by (simp_all add: t1_def)
  have c2: "config_space t2 = snd (sample_configurations P 2010 (config_space s))"
    by (simp add: t2_def random_search_config_space c1 sample_configurations_2010(2))
  have l: "get_next_by_local_search P 10 t2 = Inr (ls, s')"
    using ls by (simp add: t1_def t2_def)
  have ll: "length ls = 10" using local_search_result [OF l] by simp
  have ms: "mset scored = mset (fst (get_next_by_random_search P 1000 True t1)) + mset ls"
    by (simp add: scored mset_sort_reverse t1_def)
  have lr: "length (fst (get_next_by_random_search P 1000 True t1)) = 1000"
    by (rule random_search_length)
  show "\<exists>v t1 t2 sorted_random by_local_search.
         incumbent_value s = Inr v \<and>
         t1 = snd (get_next_by_random_search P 1010 False (after_update P s X Y v)) \<and>
         t2 = snd (get_next_by_random_search P 1000 True t1) \<and>
         rnd = map (\<lambda>c. c\<lparr>origin := Some ''Random Search''\<rparr>)
                 (take 1010 (fst (sample_configurations P 2010 (config_space s)))) \<and>
         length rnd = 1010 \<and>
         fst (sample_configurations P 1000 (config_space t1)) =
           drop 1010 (fst (sample_configurations P 2010 (config_space s))) \<and>
         model t1 = model_train P (model s) X Y \<and>
         eta (acquisition_func t1) = Some v \<and>
         sorted_random = fst (get_next_by_random_search P 1000 True t1) \<and>
         length sorted_random = 1000 \<and>
         config_space t2 = snd (sample_configurations P 2010 (config_space s)) \<and>
         get_next_by_local_search P 10 t2 = Inr (by_local_search, s') \<and>
         length by_local_search = 10 \<and>
         mset scored = mset sorted_random + mset by_local_search"
    apply (rule exI [of _ v], rule exI [of _ t1], rule exI [of _ t2])
    apply (rule exI [of _ "fst (get_next_by_random_search P 1000 True t1)"])
    apply (rule exI [of _ ls])
    using v a b dr m lr c2 l ll ms t1_def t2_def apply simp
    done
next
  let ?a = "random_search_acq_values P n t"
  let ?r = "random_search_tiebreak P n t"
  let ?perm = "rev (lexsort ?r ?a)"
  have len: "length ?a = n"
    by (simp add: random_search_acq_values_def length_sample_configurations)
  have 1: "mset ?perm = mset [0..<n]"
    using mset_lexsort [of ?r ?a] by (simp add: len)
  have 2: "fst (get_next_by_random_search P n True t) =
        map (\<lambda>i. (?a ! i,
                  (fst (sample_configurations P n (config_space t)) ! i)
                    \<lparr>origin := Some ''Random Search (sorted)''\<rparr>)) ?perm"
    by (rule random_search_sorted_eq)
  have 3: "?a ! (?perm ! q) < ?a ! (?perm ! p) \<or>
           ?a ! (?perm ! q) = ?a ! (?perm ! p) \<and> ?r ! (?perm ! q) \<le> ?r ! (?perm ! p)"
    if "p < q \<and> q < n" for p q
  proof -
    from that have "p < q" "q < length ?a" by (simp_all add: len)
    from lexsort_descending [OF this, of ?r] show ?thesis
      by (auto simp: less_eq_prod_def)
  qed
  show "\<exists>perm.
      mset perm = mset [0..<n] \<and>
      fst (get_next_by_random_search P n True t) =
        map (\<lambda>i. (?a ! i,
                  (fst (sample_configurations P n (config_space t)) ! i)
                    \<lparr>origin := Some ''Random Search (sorted)''\<rparr>)) perm \<and>
      (\<forall>p q. p < q \<and> q < n \<longrightarrow>
         ?a ! (perm ! q) < ?a ! (perm ! p) \<or>
         ?a ! (perm ! q) = ?a ! (perm ! p) \<and> ?r ! (perm ! q) \<le> ?r ! (perm ! p))"
    using 1 2 3 by (intro exI [of _ ?perm]) blast
qed

theorem random_search_draws_and_order_witness:
  "\<exists>scored rnd s' perm.
     choose_next_pools toy_collaborators toy_started [] [] = Inr (scored, rnd, s') \<and>
     rnd = map (\<lambda>c. c\<lparr>origin := Some ''Random Search''\<rparr>)
             (take 1010 (fst (sample_configurations toy_collaborators 2010 0))) \<and>
     length rnd = 1010 \<and>
     config_space
       (snd (get_next_by_random_search toy_collaborators 1000 True
          (snd (get_next_by_random_search toy_collaborators 1010 False
             (after_update toy_collaborators toy_started [] [] 1))))) = 2010 \<and>
     mset perm = mset [0..<4] \<and>
     fst (get_next_by_random_search toy_collaborators 4 True toy_started) =
        map (\<lambda>i. (random_search_acq_values toy_collaborators 4 toy_started ! i,
                  (fst (sample_configurations toy_collaborators 4 (config_space toy_started)) ! i)
                    \<lparr>origin := Some ''Random Search (sorted)''\<rparr>)) perm \<and>
     (random_search_acq_values toy_collaborators 4 toy_started ! (perm ! 1) <
        random_search_acq_values toy_collaborators 4 toy_started ! (perm ! 0) \<or>
      random_search_acq_values toy_collaborators 4 toy_started ! (perm ! 1) =
        random_search_acq_values toy_collaborators 4 toy_started ! (perm ! 0) \<and>
      random_search_tiebreak toy_collaborators 4 toy_started ! (perm ! 1) \<le>
        random_search_tiebreak toy_collaborators 4 toy_started ! (perm ! 0))"
proof -
  from toy_pools obtain scored rnd s' where
    p: "choose_next_pools toy_collaborators toy_started [] [] = Inr (scored, rnd, s')" by blast
  note t = random_search_draws_and_order
    [of toy_collaborators toy_started "[]" "[]" scored rnd s' 4 toy_started]
  have cs: "config_space toy_started = 0"
    by (simp add: toy_started_def toy_fresh_def toy_smbo_def)
  from mp [OF conjunct1 [OF t] p] obtain v t1 t2 sorted_random by_local_search where
    "incumbent_value toy_started = Inr v \<and>
     t1 = snd (get_next_by_random_search toy_collaborators 1010 False
                 (after_update toy_collaborators toy_started [] [] v)) \<and>
     t2 = snd (get_next_by_random_search toy_collaborators 1000 True t1) \<and>
     rnd = map (\<lambda>c. c\<lparr>origin := Some ''Random Search''\<rparr>)
             (take 1010 (fst (sample_configurations toy_collaborators 2010
                (config_space toy_started)))) \<and>
     length rnd = 1010 \<and>
     fst (sample_configurations toy_collaborators 1000 (config_space t1)) =
       drop 1010 (fst (sample_configurations toy_collaborators 2010
          (config_space toy_started))) \<and>
     model t1 = model_train toy_collaborators (model toy_started) [] [] \<and>
     eta (acquisition_func t1) = Some v \<and>
     sorted_random = fst (get_next_by_random_search toy_collaborators 1000 True t1) \<and>
     length sorted_random = 1000 \<and>
     config_space t2 = snd (sample_configurations toy_collaborators 2010
        (config_space toy_started)) \<and>
     get_next_by_local_search toy_collaborators 10 t2 = Inr (by_local_search, s') \<and>
     length by_local_search = 10 \<and>
     mset scored = mset sorted_random + mset by_local_search"
    by (elim exE)
  moreover from this have "v = 1" using toy_started_value by simp
  ultimately have
    r: "rnd = map (\<lambda>c. c\<lparr>origin := Some ''Random Search''\<rparr>)
             (take 1010 (fst (sample_configurations toy_collaborators 2010 0)))"
    and l: "length rnd = 1010"
    and c: "config_space
       (snd (get_next_by_random_search toy_collaborators 1000 True
          (snd (get_next_by_random_search toy_collaborators 1010 False
             (after_update toy_collaborators toy_started [] [] 1))))) =
         snd (sample_configurations toy_collaborators 2010 0)"
    unfolding cs by blast+
  from c have c': "config_space
       (snd (get_next_by_random_search toy_collaborators 1000 True
          (snd (get_next_by_random_search toy_collaborators 1010 False
             (after_update toy_collaborators toy_started [] [] 1))))) = 2010"
    by (simp add: toy_sampler)
  from conjunct2 [OF t] obtain perm where
    m: "mset perm = mset [0..<4]"
    and e: "fst (get_next_by_random_search toy_collaborators 4 True toy_started) =
        map (\<lambda>i. (random_search_acq_values toy_collaborators 4 toy_started ! i,
                  (fst (sample_configurations toy_collaborators 4 (config_space toy_started)) ! i)
                    \<lparr>origin := Some ''Random Search (sorted)''\<rparr>)) perm"
    and o: "\<forall>p q. p < q \<and> q < 4 \<longrightarrow>
         random_search_acq_values toy_collaborators 4 toy_started ! (perm ! q) <
           random_search_acq_values toy_collaborators 4 toy_started ! (perm ! p) \<or>
         random_search_acq_values toy_collaborators 4 toy_started ! (perm ! q) =
           random_search_acq_values toy_collaborators 4 toy_started ! (perm ! p) \<and>
         random_search_tiebreak toy_collaborators 4 toy_started ! (perm ! q) \<le>
           random_search_tiebreak toy_collaborators 4 toy_started ! (perm ! p)"
    by blast
  have "(0::nat) < 1 \<and> (1::nat) < 4" by simp
  with o have
    "random_search_acq_values toy_collaborators 4 toy_started ! (perm ! 1) <
        random_search_acq_values toy_collaborators 4 toy_started ! (perm ! 0) \<or>
      random_search_acq_values toy_collaborators 4 toy_started ! (perm ! 1) =
        random_search_acq_values toy_collaborators 4 toy_started ! (perm ! 0) \<and>
      random_search_tiebreak toy_collaborators 4 toy_started ! (perm ! 1) \<le>
        random_search_tiebreak toy_collaborators 4 toy_started ! (perm ! 0)"
    by blast
  with p r l c' m e show ?thesis by blast
qed

section \<open>The main loop\<close>

lemma incumbent_value_rng [simp]:
  "incumbent_value (s\<lparr>rng := g\<rparr>) = incumbent_value s"
  by (simp add: incumbent_value_def split: option.splits)

lemma choose_next_frame:
  assumes "choose_next P s X Y = Inr (ch, s')"
  shows "runhistory s' = runhistory s" and "incumbent s' = incumbent s"
proof -
  from choose_next_Inr [OF assms] obtain scored rnd where
    p: "choose_next_pools P s X Y = Inr (scored, rnd, s')" by blast
  show "runhistory s' = runhistory s" using choose_next_pools_facts(8) [OF p] .
  show "incumbent s' = incumbent s" using choose_next_pools_facts(7) [OF p] .
qed

lemma smbo_iteration_succeeds:
  assumes "\<forall>g. 0 \<le> fst (rng_rand P g) \<and> fst (rng_rand P g) < 1"
    and "incumbent_value s = Inr v"
  shows "\<exists>s' w'. smbo_iteration P s w = Inr (s', w')"
proof -
  from assms(2) obtain rh where rh: "runhistory s = Some rh"
    by (auto simp: incumbent_value_def split: option.splits)
  obtain X Y m' g' where
    tr: "rh2EPM_transform P (scenario s) (rh2EPM s) rh (model s) (rng s) = ((X, Y), m', g')"
    by (metis prod.exhaust)
  have "incumbent_value (s\<lparr>model := m', rng := g'\<rparr>) = Inr v"
    using assms(2) by simp
  from choose_next_succeeds [OF assms(1) this] obtain ch s2 where
    ch: "choose_next P (s\<lparr>model := m', rng := g'\<rparr>) X Y = Inr (ch, s2)" by blast
  have "runhistory s2 = Some rh"
    using choose_next_frame(1) [OF ch] rh by simp
  then show ?thesis
    by (simp add: smbo_iteration_def rh tr ch split_beta Let_def)
qed

lemma smbo_iteration_needs_value:
  "smbo_iteration P s w = Inr (s', w') \<Longrightarrow> \<exists>v. incumbent_value s = Inr v"
  by (cases "incumbent_value s")
    (auto simp: smbo_iteration_def split_beta Let_def choose_next_error
      split: option.splits sum.splits)


lemma run_loop_first_iteration:
  "run_loop P iteration max_iters s w = Some (Inr r) \<Longrightarrow>
   \<exists>s' w'. smbo_iteration P s w = Inr (s', w')"
  by (subst (asm) run_loop.simps) (auto split: sum.splits)

lemma smbo_iteration_iff:
  "smbo_iteration P s w = Inr (s', w') \<longleftrightarrow> full_iteration P s w s' w'"
proof
  assume a: "smbo_iteration P s w = Inr (s', w')"
  obtain start_time w1 where t0: "time_time P w = (start_time, w1)"
    by (cases "time_time P w")
  from a obtain rh where rh: "runhistory s = Some rh"
    by (auto simp: smbo_iteration_def split_beta Let_def split: option.splits)
  obtain X Y m g where
    tr: "rh2EPM_transform P (scenario s) (rh2EPM s) rh (model s) (rng s) = ((X, Y), m, g)"
    by (metis prod.exhaust)
  from a t0 rh tr obtain challengers s2 where
    ch: "choose_next P (s\<lparr>model := m, rng := g\<rparr>) X Y = Inr (challengers, s2)"
    by (auto simp: smbo_iteration_def split: sum.splits)
  obtain end_time w2 where t1: "time_time P w1 = (end_time, w2)"
    by (cases "time_time P w1")
  from a t0 rh tr ch t1 obtain rh2 where rh2: "runhistory s2 = Some rh2"
    by (auto simp: smbo_iteration_def split: option.splits)
  obtain inc rh3 w3 where
    it: "intensify P (inten s2) challengers (incumbent s2) rh2 (objective s2)
           (max 0.01 (end_time - start_time)) w2 = ((inc, rh3), w3)"
    by (metis prod.exhaust)
  from a t0 rh tr ch t1 rh2 it have
    "s' = s2\<lparr>incumbent := Some inc, runhistory := Some rh3\<rparr>" "w' = w3"
    by (simp_all add: smbo_iteration_def)
  with full_iteration.pass [OF t0 rh tr ch t1 rh2 it] show "full_iteration P s w s' w'"
    by simp
next
  assume "full_iteration P s w s' w'"
  then show "smbo_iteration P s w = Inr (s', w')"
    by cases (simp add: smbo_iteration_def)
qed

lemma budget_exhausted_eq:
  "budget_exhausted P w =
     (fst (read_time_budget P w) < 0 \<or> fst (read_ta_budget P w) < 0 \<or>
      fst (read_ta_runs P w) < 0,
      world_after_poll P w)"
  by (simp add: budget_exhausted_def read_time_budget_def read_ta_budget_def read_ta_runs_def
      world_after_poll_def split_beta Let_def)

lemma run_loop_result:
  assumes "run_loop P iteration max_iters s w = Some y"
  shows "loop_result P iteration max_iters s w y"
proof -
  have "(\<lambda>((((P, i), m), s), w) y. loop_result P i m s w y)
          ((((P, iteration), max_iters), s), w) y"
  proof (rule run_loop.raw_induct
      [where Pa = "\<lambda>((((P, i), m), s), w) y. loop_result P i m s w y", OF _ assms],
      goal_cases)
    case (1 loop P iteration max_iters s w y)
    have IH: "loop_result P' i m s w y" if "loop P' i m s w = Some y" for P' i m s w y
      using "1"(1) [OF that] by simp
    note eq = "1"(2)
    have "loop_result P iteration max_iters s w y"
      unfolding loop_result_def
    proof (intro allI impI)
      fix s' w'
      assume y: "y = Inr (s', w')"
      from eq y obtain s1 w1 where it: "smbo_iteration P s w = Inr (s1, w1)"
        by (auto split: sum.splits)
      then have fi: "full_iteration P s w s1 w1" by (simp add: smbo_iteration_iff)
      show "\<exists>k wk. 1 \<le> k \<and> completed P k s w s' wk \<and>
              (\<forall>j. 1 \<le> j \<and> j < k \<longrightarrow> iteration + int j - 1 \<noteq> max_iters) \<and>
              (iteration + int k - 1 = max_iters \<and> w' = wk \<or>
               iteration + int k - 1 \<noteq> max_iters \<and>
               (fst (read_time_budget P wk) < 0 \<or> fst (read_ta_budget P wk) < 0 \<or>
                fst (read_ta_runs P wk) < 0) \<and>
               w' = world_after_poll P wk)"
      proof (cases "iteration = max_iters")
        case True
        with eq it y have "s' = s1" "w' = w1" by simp_all
        with fi True show ?thesis
          by (intro exI [of _ 1] exI [of _ w1]) (auto intro: completed.first)
      next
        case ne: False
        show ?thesis
        proof (cases "fst (read_time_budget P w1) < 0 \<or> fst (read_ta_budget P w1) < 0 \<or>
                      fst (read_ta_runs P w1) < 0")
          case True
          with eq it y ne have "s' = s1" "w' = world_after_poll P w1"
            by (simp_all add: budget_exhausted_eq)
          with fi True ne show ?thesis
            by (intro exI [of _ 1] exI [of _ w1]) (auto intro: completed.first)
        next
          case False
          then have nn: "0 \<le> fst (read_time_budget P w1)" "0 \<le> fst (read_ta_budget P w1)"
            "0 \<le> fst (read_ta_runs P w1)" by auto
          from False have wp: "world_after_poll P w1 = snd (read_ta_runs P w1)"
            by (auto simp: world_after_poll_def)
          from eq it y ne False have
            "loop P (iteration + 1) max_iters s1 (snd (read_ta_runs P w1)) = Some (Inr (s', w'))"
            by (simp add: budget_exhausted_eq wp)
          from IH [OF this] obtain k wk where
            k: "1 \<le> k" "completed P k s1 (snd (read_ta_runs P w1)) s' wk"
            "\<forall>j. 1 \<le> j \<and> j < k \<longrightarrow> iteration + 1 + int j - 1 \<noteq> max_iters"
            "iteration + 1 + int k - 1 = max_iters \<and> w' = wk \<or>
               iteration + 1 + int k - 1 \<noteq> max_iters \<and>
               (fst (read_time_budget P wk) < 0 \<or> fst (read_ta_budget P wk) < 0 \<or>
                fst (read_ta_runs P wk) < 0) \<and>
               w' = world_after_poll P wk"
            unfolding loop_result_def by blast
          have c: "completed P (Suc k) s w s' wk"
            using completed.step [OF fi nn k(2)] .
          have e: "\<forall>j. 1 \<le> j \<and> j < Suc k \<longrightarrow> iteration + int j - 1 \<noteq> max_iters"
          proof (intro allI impI)
            fix j assume j: "1 \<le> j \<and> j < Suc k"
            show "iteration + int j - 1 \<noteq> max_iters"
            proof (cases "j = 1")
              case True
              with ne show ?thesis by simp
            next
              case False
              with j have "1 \<le> j - 1 \<and> j - 1 < k" by auto
              with k(3) have "iteration + 1 + int (j - 1) - 1 \<noteq> max_iters" by blast
              moreover from j have "int (j - 1) = int j - 1" by auto
              ultimately show ?thesis by simp
            qed
          qed
          from k(4) have f: "iteration + int (Suc k) - 1 = max_iters \<and> w' = wk \<or>
               iteration + int (Suc k) - 1 \<noteq> max_iters \<and>
               (fst (read_time_budget P wk) < 0 \<or> fst (read_ta_budget P wk) < 0 \<or>
                fst (read_ta_runs P wk) < 0) \<and>
               w' = world_after_poll P wk"
            by simp
          show ?thesis
            using c e f by (intro exI [of _ "Suc k"] exI [of _ wk]) simp
        qed
      qed
    qed
    then show ?case by simp
  qed
  then show ?thesis by simp
qed

lemma completed_first_pass:
  "completed P k s w s' w' \<Longrightarrow>
   \<exists>s1 w1. full_iteration P s w s1 w1 \<and> (k = 1 \<longrightarrow> s' = s1 \<and> w' = w1)"
proof (induction rule: completed.induct)
  case (first s w s' w')
  then show ?case by auto
next
  case (step s w s1 w1 k s' w')
  from step.IH have "k \<noteq> 0" using step.hyps(5) by (auto elim: completed.cases)
  with step.hyps(1) show ?case by auto
qed

subsection \<open>The toy instance with counters that leave a trace\<close>

lemma toy_polls_unit_interval:
  "\<forall>g. 0 \<le> fst (rng_rand toy_polls_collaborators g) \<and>
       fst (rng_rand toy_polls_collaborators g) < 1"
  by (simp add: toy_polls_collaborators_def toy_collaborators_def)

lemma toy_polls_initial_design:
  "run_initial_design toy_polls_collaborators toy_fresh 0 = Inr (toy_started, 0)"
  by (simp add: run_initial_design_def toy_polls_collaborators_def toy_collaborators_def
      toy_started_def toy_fresh_def toy_smbo_def toy_scenario_def py_index_def py_or_def
      dict_get_def rh_add_def rh_update_cost_def RunHistory_new_def Let_def)

lemma toy_polls_reads:
  "read_time_budget toy_polls_collaborators w = (- 1, w + 400)"
  "world_after_poll toy_polls_collaborators w = w + 400"
  by (simp_all add: world_after_poll_def read_time_budget_def toy_polls_collaborators_def)

lemma toy_polls_pass:
  "full_iteration toy_polls_collaborators s w s' w' \<Longrightarrow> w' = w + 2"
  by (erule full_iteration.cases)
    (auto simp: toy_polls_collaborators_def toy_collaborators_def)

lemma toy_polls_completed:
  "completed toy_polls_collaborators k s w s' w' \<Longrightarrow> k = 1 \<and> w' = w + 2"
  by (erule completed.cases) (auto simp: toy_polls_reads dest: toy_polls_pass)

lemma toy_polls_run:
  "\<exists>inc s' w'.
     run toy_polls_collaborators max_iters (toy_smbo ''quality'') 0 = Some (Inr (inc, s', w'))"
proof -
  from smbo_iteration_succeeds [OF toy_polls_unit_interval toy_started_value, of 0]
  obtain s2 w2 where it: "smbo_iteration toy_polls_collaborators toy_started 0 = Inr (s2, w2)"
    by blast
  have "\<exists>w'. run_loop toy_polls_collaborators 1 max_iters toy_started 0 = Some (Inr (s2, w'))"
    by (subst run_loop.simps) (simp add: it budget_exhausted_eq toy_polls_reads)
  moreover have "Stats_start_timing toy_polls_collaborators 0 = 0"
    by (simp add: toy_polls_collaborators_def toy_collaborators_def)
  ultimately show ?thesis
    using toy_polls_initial_design by (auto simp: run_def toy_fresh_def [symmetric])
qed

lemma toy_polls_start:
  "run_initial_design toy_polls_collaborators
     ((toy_smbo ''quality'')\<lparr>runhistory := Some RunHistory_new\<rparr>)
     (Stats_start_timing toy_polls_collaborators 0) = Inr (toy_started, 0)"
  using toy_polls_initial_design
  by (simp add: toy_fresh_def toy_polls_collaborators_def toy_collaborators_def)

subsection \<open>Claims about \<open>run\<close>\<close>



text \<open>
  Claim C9. Whenever \<open>run\<close> returns, for any \<open>max_iters\<close> and any budget, at least one
  full pass was run, and the first one started in the very world that the initial design
  left: no counter is read before it. The state returned is the one after \<open>k \<ge> 1\<close> full
  passes, the counters being read only in worlds that a full pass returned: after each
  pass but the last, and after the last one unless it was the pass numbered
  \<open>max_iters\<close>. With \<open>max_iters = 1\<close> the counters are never read.
\<close>

theorem first_iteration_before_budget:
  assumes "run P max_iters s w = Some (Inr (inc, s', w'))"
  shows "\<exists>s1 w1 s2 w2 k wk.
           run_initial_design P (s\<lparr>runhistory := Some RunHistory_new\<rparr>)
             (Stats_start_timing P w) = Inr (s1, w1) \<and>
           full_iteration P s1 w1 s2 w2 \<and>
           1 \<le> k \<and> completed P k s1 w1 s' wk \<and>
           (k = 1 \<longrightarrow> s' = s2 \<and> wk = w2) \<and>
           inc = incumbent s' \<and>
           (int k = max_iters \<and> w' = wk \<or>
            int k \<noteq> max_iters \<and>
            (fst (read_time_budget P wk) < 0 \<or> fst (read_ta_budget P wk) < 0 \<or>
             fst (read_ta_runs P wk) < 0) \<and>
            w' = world_after_poll P wk)"
proof -
  from assms obtain s1 w1 where
    i: "run_initial_design P (s\<lparr>runhistory := Some RunHistory_new\<rparr>)
          (Stats_start_timing P w) = Inr (s1, w1)"
    by (auto simp: run_def split: sum.splits)
  with assms have l: "run_loop P 1 max_iters s1 w1 = Some (Inr (s', w'))"
    and inc: "inc = incumbent s'"
    by (auto simp: run_def split: option.splits sum.splits)
  from run_loop_result [OF l] obtain k wk where
    k: "1 \<le> k" "completed P k s1 w1 s' wk"
    "1 + int k - 1 = max_iters \<and> w' = wk \<or>
     1 + int k - 1 \<noteq> max_iters \<and>
     (fst (read_time_budget P wk) < 0 \<or> fst (read_ta_budget P wk) < 0 \<or>
      fst (read_ta_runs P wk) < 0) \<and>
     w' = world_after_poll P wk"
    unfolding loop_result_def by blast
  from completed_first_pass [OF k(2)] obtain s2 w2 where
    f: "full_iteration P s1 w1 s2 w2" "k = 1 \<longrightarrow> s' = s2 \<and> wk = w2"
    by blast
  from k(3) have
    "int k = max_iters \<and> w' = wk \<or>
     int k \<noteq> max_iters \<and>
     (fst (read_time_budget P wk) < 0 \<or> fst (read_ta_budget P wk) < 0 \<or>
      fst (read_ta_runs P wk) < 0) \<and>
     w' = world_after_poll P wk"
    by simp
  with i f k(1,2) inc show ?thesis by blast
qed

theorem first_iteration_before_budget_witness:
  "fst (Stats_get_remaing_time_budget toy_polls_collaborators 0) < 0 \<and>
   (\<exists>inc s'.
      run toy_polls_collaborators 1 (toy_smbo ''quality'') 0 = Some (Inr (inc, s', 2)) \<and>
      full_iteration toy_polls_collaborators toy_started 0 s' 2) \<and>
   (\<exists>inc s'.
      run toy_polls_collaborators 5 (toy_smbo ''quality'') 0 = Some (Inr (inc, s', 402)) \<and>
      full_iteration toy_polls_collaborators toy_started 0 s' 2)"
proof -
  have b: "fst (Stats_get_remaing_time_budget toy_polls_collaborators 0) < 0"
    by (simp add: toy_polls_collaborators_def)
  have one: "\<exists>inc s'.
      run toy_polls_collaborators m (toy_smbo ''quality'') 0 =
        Some (Inr (inc, s', if m = 1 then 2 else 402)) \<and>
      full_iteration toy_polls_collaborators toy_started 0 s' 2" for m
  proof -
    from toy_polls_run [of m] obtain inc s' w' where
      r: "run toy_polls_collaborators m (toy_smbo ''quality'') 0 = Some (Inr (inc, s', w'))"
      by blast
    from first_iteration_before_budget [OF r] toy_polls_start obtain s2 w2 k wk where
      k: "full_iteration toy_polls_collaborators toy_started 0 s2 w2"
      "completed toy_polls_collaborators k toy_started 0 s' wk"
      "k = 1 \<longrightarrow> s' = s2 \<and> wk = w2"
      "int k = m \<and> w' = wk \<or>
       int k \<noteq> m \<and>
       (fst (read_time_budget toy_polls_collaborators wk) < 0 \<or>
        fst (read_ta_budget toy_polls_collaborators wk) < 0 \<or>
        fst (read_ta_runs toy_polls_collaborators wk) < 0) \<and>
       w' = world_after_poll toy_polls_collaborators wk"
      by auto
    from toy_polls_completed [OF k(2)] have k1: "k = 1" "wk = 2" by simp_all
    with k(3) have e: "s2 = s'" "w2 = 2" by simp_all
    from k(4) k1 have "w' = (if m = 1 then 2 else 402)"
      by (auto simp: toy_polls_reads)
    with r k(1) e show ?thesis by auto
  qed
  from one [of 1] one [of 5] b show ?thesis by simp
qed

end
